theory Spec2Isabelle
  imports Complex_Main
begin

section \<open>The host language: exceptions, values, syntax trees\<close>

text \<open>
  The program (\<^verbatim>\<open>calculater.py\<close>) is Python. An exception is a value of \<open>py_error\<close>
  and every function that may raise returns \<open>py_error + 'a\<close>, with \<open>Inl\<close> for the raise.
  \<open>ValueError\<close> carries its message, because the program tells its own failures apart
  by message only.
\<close>

datatype py_error =
    ValueError string
  | ZeroDivisionError
  | OverflowError
  | TypeError
  | AttributeError
  | SyntaxError
  | RecursionError

text \<open>
  The objects a \<^verbatim>\<open>Constant\<close> node can hold (the literals of the language), and the
  objects the visitor can return. An \<^verbatim>\<open>int\<close> is unbounded. A \<^verbatim>\<open>float\<close> is modelled
  by the real number it denotes and a \<^verbatim>\<open>complex\<close> by a complex number. The rounding of
  a result to the nearest \<^verbatim>\<open>float\<close>, infinities and NaN are outside the model. What is
  in the model is where the size of a result changes what the host does: a result too
  large for a \<^verbatim>\<open>float\<close> raises \<^verbatim>\<open>OverflowError\<close> in the operations where the host
  raises it, and a product, quotient or power too small for a \<^verbatim>\<open>float\<close> is zero.
\<close>

datatype py_const =
    CInt int
  | CBool bool
  | CFloat real
  | CComplex complex
  | CStr string
  | CBytes string
  | CNone
  | CEllipsis

datatype pyval =
    VInt int
  | VBool bool
  | VFloat real
  | VComplex complex
  | VNone

subsection \<open>Arithmetic of the host\<close>

text \<open>
  The range of a \<^verbatim>\<open>float\<close> (a binary64 number). A magnitude from \<open>float_limit\<close> on,
  half a unit in the last place above the largest \<^verbatim>\<open>float\<close>, rounds beyond the largest
  \<^verbatim>\<open>float\<close>; a magnitude up to \<open>float_tiny\<close>, half the smallest positive \<^verbatim>\<open>float\<close>,
  rounds to zero.
\<close>

definition float_limit :: real where
  "float_limit = 2 ^ 1024 - 2 ^ 970"

definition float_tiny :: real where
  "float_tiny = 1 / 2 ^ 1075"

definition underflow :: "real \<Rightarrow> real" where
  "underflow x = (if \<bar>x\<bar> \<le> float_tiny then 0 else x)"

text \<open>
  The conversion of an \<^verbatim>\<open>int\<close> to a \<^verbatim>\<open>float\<close> raises \<^verbatim>\<open>OverflowError\<close> ("int too
  large to convert to float") when the \<^verbatim>\<open>int\<close> is out of range.
\<close>

definition int_to_float :: "int \<Rightarrow> py_error + real" where
  "int_to_float i =
     (if float_limit \<le> \<bar>of_int i\<bar> then Inl OverflowError else Inr (of_int i))"

text \<open>
  A \<^verbatim>\<open>float\<close> result of an operation that raises \<^verbatim>\<open>OverflowError\<close> when the result is
  out of range (the quotient of two \<^verbatim>\<open>int\<close>s, a power), and the like for a
  \<^verbatim>\<open>complex\<close> power, where either part can be out of range.
\<close>

definition float_result :: "real \<Rightarrow> py_error + pyval" where
  "float_result x =
     (if float_limit \<le> \<bar>x\<bar> then Inl OverflowError else Inr (VFloat (underflow x)))"

definition complex_result :: "complex \<Rightarrow> py_error + pyval" where
  "complex_result z =
     (if float_limit \<le> \<bar>Re z\<bar> \<or> float_limit \<le> \<bar>Im z\<bar> then Inl OverflowError
      else Inr (VComplex (Complex (underflow (Re z)) (underflow (Im z)))))"

text \<open>
  The operators \<^verbatim>\<open>+ - * / % **\<close> and the unary \<^verbatim>\<open>+ -\<close> on the objects the visitor
  can return. A \<^verbatim>\<open>bool\<close> is an \<^verbatim>\<open>int\<close> (\<^verbatim>\<open>True\<close> is 1); \<^verbatim>\<open>None\<close> is no number and
  raises \<^verbatim>\<open>TypeError\<close>. An operation is carried out in the widest of the two operand
  types: an \<^verbatim>\<open>int\<close> that meets a \<^verbatim>\<open>float\<close> or a \<^verbatim>\<open>complex\<close> is converted to a
  \<^verbatim>\<open>float\<close> first, and the conversion can raise.
\<close>

datatype number = NInt int | NFloat real | NComplex complex

fun as_number :: "pyval \<Rightarrow> number option" where
  "as_number (VInt i) = Some (NInt i)"
| "as_number (VBool b) = Some (NInt (if b then 1 else 0))"
| "as_number (VFloat x) = Some (NFloat x)"
| "as_number (VComplex z) = Some (NComplex z)"
| "as_number VNone = None"

fun is_complex :: "pyval \<Rightarrow> bool" where
  "is_complex (VComplex z) = True"
| "is_complex v = False"

datatype operands = Ints int int | Floats real real | Complexes complex complex

fun widen :: "number \<Rightarrow> number \<Rightarrow> py_error + operands" where
  "widen (NInt i) (NInt j) = Inr (Ints i j)"
| "widen (NInt i) (NFloat y) =
     (case int_to_float i of Inl e \<Rightarrow> Inl e | Inr x \<Rightarrow> Inr (Floats x y))"
| "widen (NFloat x) (NInt j) =
     (case int_to_float j of Inl e \<Rightarrow> Inl e | Inr y \<Rightarrow> Inr (Floats x y))"
| "widen (NFloat x) (NFloat y) = Inr (Floats x y)"
| "widen (NInt i) (NComplex w) =
     (case int_to_float i of Inl e \<Rightarrow> Inl e | Inr x \<Rightarrow> Inr (Complexes (of_real x) w))"
| "widen (NFloat x) (NComplex w) = Inr (Complexes (of_real x) w)"
| "widen (NComplex z) (NInt j) =
     (case int_to_float j of Inl e \<Rightarrow> Inl e | Inr y \<Rightarrow> Inr (Complexes z (of_real y)))"
| "widen (NComplex z) (NFloat y) = Inr (Complexes z (of_real y))"
| "widen (NComplex z) (NComplex w) = Inr (Complexes z w)"

definition coerce :: "pyval \<Rightarrow> pyval \<Rightarrow> py_error + operands" where
  "coerce l r =
     (case as_number l of
        None \<Rightarrow> Inl TypeError
      | Some a \<Rightarrow> (case as_number r of None \<Rightarrow> Inl TypeError | Some b \<Rightarrow> widen a b))"

definition py_add :: "pyval \<Rightarrow> pyval \<Rightarrow> py_error + pyval" where
  "py_add l r =
     (case coerce l r of
        Inl e \<Rightarrow> Inl e
      | Inr (Ints i j) \<Rightarrow> Inr (VInt (i + j))
      | Inr (Floats x y) \<Rightarrow> Inr (VFloat (x + y))
      | Inr (Complexes z w) \<Rightarrow> Inr (VComplex (z + w)))"

definition py_sub :: "pyval \<Rightarrow> pyval \<Rightarrow> py_error + pyval" where
  "py_sub l r =
     (case coerce l r of
        Inl e \<Rightarrow> Inl e
      | Inr (Ints i j) \<Rightarrow> Inr (VInt (i - j))
      | Inr (Floats x y) \<Rightarrow> Inr (VFloat (x - y))
      | Inr (Complexes z w) \<Rightarrow> Inr (VComplex (z - w)))"

definition py_mul :: "pyval \<Rightarrow> pyval \<Rightarrow> py_error + pyval" where
  "py_mul l r =
     (case coerce l r of
        Inl e \<Rightarrow> Inl e
      | Inr (Ints i j) \<Rightarrow> Inr (VInt (i * j))
      | Inr (Floats x y) \<Rightarrow> Inr (VFloat (underflow (x * y)))
      | Inr (Complexes z w) \<Rightarrow> Inr (VComplex (z * w)))"

text \<open>
  True division: the quotient of two \<^verbatim>\<open>int\<close>s is a \<^verbatim>\<open>float\<close>, computed from the
  \<^verbatim>\<open>int\<close>s themselves, and \<^verbatim>\<open>OverflowError\<close> when it is out of range. The divisor is
  tested after the conversion of the operands.
\<close>

definition py_truediv :: "pyval \<Rightarrow> pyval \<Rightarrow> py_error + pyval" where
  "py_truediv l r =
     (case coerce l r of
        Inl e \<Rightarrow> Inl e
      | Inr (Ints i j) \<Rightarrow>
          if j = 0 then Inl ZeroDivisionError else float_result (of_int i / of_int j)
      | Inr (Floats x y) \<Rightarrow>
          if y = 0 then Inl ZeroDivisionError else Inr (VFloat (underflow (x / y)))
      | Inr (Complexes z w) \<Rightarrow>
          if w = 0 then Inl ZeroDivisionError else Inr (VComplex (z / w)))"

text \<open>
  The remainder has the sign of the divisor, for \<^verbatim>\<open>int\<close> (as \<open>mod\<close> on \<open>int\<close> has)
  and for \<^verbatim>\<open>float\<close>; \<^verbatim>\<open>complex\<close> has no remainder, and the host finds that out before
  it converts an operand.
\<close>

definition py_mod :: "pyval \<Rightarrow> pyval \<Rightarrow> py_error + pyval" where
  "py_mod l r =
     (if is_complex l \<or> is_complex r then Inl TypeError
      else
        (case coerce l r of
           Inl e \<Rightarrow> Inl e
         | Inr (Ints i j) \<Rightarrow>
             if j = 0 then Inl ZeroDivisionError else Inr (VInt (i mod j))
         | Inr (Floats x y) \<Rightarrow>
             if y = 0 then Inl ZeroDivisionError
             else Inr (VFloat (x - y * of_int \<lfloor>x / y\<rfloor>))
         | Inr (Complexes z w) \<Rightarrow> Inl TypeError))"

text \<open>
  The power of two \<^verbatim>\<open>complex\<close> numbers, in polar form: \<open>z\<close> to the \<open>w\<close> is
  \<open>exp (w * log z)\<close> with the principal logarithm.
\<close>

definition complex_pow :: "complex \<Rightarrow> complex \<Rightarrow> py_error + pyval" where
  "complex_pow z w =
     (if w = 0 then Inr (VComplex 1)
      else if z = 0 then
        (if Im w \<noteq> 0 \<or> Re w < 0 then Inl ZeroDivisionError else Inr (VComplex 0))
      else complex_result (exp (w * Complex (ln (cmod z)) (Arg z))))"

text \<open>
  The power of two \<^verbatim>\<open>float\<close>s. A negative base with an exponent that is not a whole
  number is handed to the power of \<^verbatim>\<open>complex\<close>.
\<close>

definition float_pow :: "real \<Rightarrow> real \<Rightarrow> py_error + pyval" where
  "float_pow x y =
     (if y = 0 then Inr (VFloat 1)
      else if x = 0 then (if y < 0 then Inl ZeroDivisionError else Inr (VFloat 0))
      else if x < 0 \<and> y \<noteq> of_int \<lfloor>y\<rfloor> then complex_pow (of_real x) (of_real y)
      else if x < 0 then float_result (x powi \<lfloor>y\<rfloor>)
      else float_result (x powr y))"

text \<open>
  An \<^verbatim>\<open>int\<close> to a negative \<^verbatim>\<open>int\<close> is computed as a power of \<^verbatim>\<open>float\<close>s, after the
  conversion of both.
\<close>

definition py_pow :: "pyval \<Rightarrow> pyval \<Rightarrow> py_error + pyval" where
  "py_pow l r =
     (case coerce l r of
        Inl e \<Rightarrow> Inl e
      | Inr (Ints i j) \<Rightarrow>
          if 0 \<le> j then Inr (VInt (i ^ nat j))
          else (case int_to_float i of
                  Inl e \<Rightarrow> Inl e
                | Inr x \<Rightarrow>
                    (case int_to_float j of Inl e \<Rightarrow> Inl e | Inr y \<Rightarrow> float_pow x y))
      | Inr (Floats x y) \<Rightarrow> float_pow x y
      | Inr (Complexes z w) \<Rightarrow> complex_pow z w)"

fun py_pos :: "pyval \<Rightarrow> py_error + pyval" where
  "py_pos (VInt i) = Inr (VInt i)"
| "py_pos (VBool b) = Inr (VInt (if b then 1 else 0))"
| "py_pos (VFloat x) = Inr (VFloat x)"
| "py_pos (VComplex z) = Inr (VComplex z)"
| "py_pos VNone = Inl TypeError"

fun py_neg :: "pyval \<Rightarrow> py_error + pyval" where
  "py_neg (VInt i) = Inr (VInt (- i))"
| "py_neg (VBool b) = Inr (VInt (if b then - 1 else 0))"
| "py_neg (VFloat x) = Inr (VFloat (- x))"
| "py_neg (VComplex z) = Inr (VComplex (- z))"
| "py_neg VNone = Inl TypeError"


subsection \<open>Syntax trees\<close>

text \<open>
  The classes of \<^verbatim>\<open>ast\<close> that the program does not name: the remaining expression
  classes, the remaining operators and contexts, and the helper nodes of calls,
  comprehensions and lambdas.
\<close>

datatype other_class =
    BoolOp | NamedExpr | Lambda | IfExp | Dict | SetDisplay | ListComp | SetComp
  | DictComp | GeneratorExp | Await | Yield | YieldFrom | Compare | FormattedValue
  | JoinedStr | Attribute | Subscript | Starred | ListDisplay | Slice
  | Store | Del
  | MatMult | LShift | RShift | BitOr | BitXor | BitAnd | FloorDiv
  | Invert | NotOp
  | Keyword | Comprehension | Arguments | ArgNode

text \<open>
  A syntax tree, as \<^verbatim>\<open>ast.parse\<close> builds it. Python does not type the fields of a
  node, so operators and contexts are nodes like any other; the fields are in the
  order of the class's \<^verbatim>\<open>_fields\<close>. \<open>Other c ns\<close> is a node of class \<open>c\<close> with the
  child nodes \<open>ns\<close>.
\<close>

datatype node =
    Expression node                     \<comment> \<open>body\<close>
  | BinOp node node node                \<comment> \<open>left, op, right\<close>
  | UnaryOp node node                   \<comment> \<open>op, operand\<close>
  | Constant py_const                  \<comment> \<open>value\<close>
  | Add | Sub | Mult | Div | Mod | PowOp
  | UAdd | USub
  | Load
  | Call node "node list" "node list"   \<comment> \<open>func, args, keywords\<close>
  | Name string node                    \<comment> \<open>id, ctx\<close>
  | Tuple "node list" node              \<comment> \<open>elts, ctx\<close>
  | Other other_class "node list"

fun other_name :: "other_class \<Rightarrow> string" where
  "other_name BoolOp = ''BoolOp''"
| "other_name NamedExpr = ''NamedExpr''"
| "other_name Lambda = ''Lambda''"
| "other_name IfExp = ''IfExp''"
| "other_name Dict = ''Dict''"
| "other_name SetDisplay = ''Set''"
| "other_name ListComp = ''ListComp''"
| "other_name SetComp = ''SetComp''"
| "other_name DictComp = ''DictComp''"
| "other_name GeneratorExp = ''GeneratorExp''"
| "other_name Await = ''Await''"
| "other_name Yield = ''Yield''"
| "other_name YieldFrom = ''YieldFrom''"
| "other_name Compare = ''Compare''"
| "other_name FormattedValue = ''FormattedValue''"
| "other_name JoinedStr = ''JoinedStr''"
| "other_name Attribute = ''Attribute''"
| "other_name Subscript = ''Subscript''"
| "other_name Starred = ''Starred''"
| "other_name ListDisplay = ''List''"
| "other_name Slice = ''Slice''"
| "other_name Store = ''Store''"
| "other_name Del = ''Del''"
| "other_name MatMult = ''MatMult''"
| "other_name LShift = ''LShift''"
| "other_name RShift = ''RShift''"
| "other_name BitOr = ''BitOr''"
| "other_name BitXor = ''BitXor''"
| "other_name BitAnd = ''BitAnd''"
| "other_name FloorDiv = ''FloorDiv''"
| "other_name Invert = ''Invert''"
| "other_name NotOp = ''Not''"
| "other_name Keyword = ''keyword''"
| "other_name Comprehension = ''comprehension''"
| "other_name Arguments = ''arguments''"
| "other_name ArgNode = ''arg''"

text \<open>\<^verbatim>\<open>type(node).__name__\<close>\<close>

fun class_name :: "node \<Rightarrow> string" where
  "class_name (Expression _) = ''Expression''"
| "class_name (BinOp _ _ _) = ''BinOp''"
| "class_name (UnaryOp _ _) = ''UnaryOp''"
| "class_name (Constant _) = ''Constant''"
| "class_name Add = ''Add''"
| "class_name Sub = ''Sub''"
| "class_name Mult = ''Mult''"
| "class_name Div = ''Div''"
| "class_name Mod = ''Mod''"
| "class_name PowOp = ''Pow''"
| "class_name UAdd = ''UAdd''"
| "class_name USub = ''USub''"
| "class_name Load = ''Load''"
| "class_name (Call _ _ _) = ''Call''"
| "class_name (Name _ _) = ''Name''"
| "class_name (Tuple _ _) = ''Tuple''"
| "class_name (Other c _) = other_name c"

text \<open>
  \<^verbatim>\<open>isinstance(node, classes)\<close>: none of the classes involved has a subclass, so the
  test compares class names.
\<close>

definition isinstance :: "node \<Rightarrow> string list \<Rightarrow> bool" where
  "isinstance node classes = (class_name node \<in> set classes)"

text \<open>The child nodes of a node in the order of its fields (\<^verbatim>\<open>ast.iter_child_nodes\<close>).\<close>

fun child_nodes :: "node \<Rightarrow> node list" where
  "child_nodes (Expression body) = [body]"
| "child_nodes (BinOp left op right) = [left, op, right]"
| "child_nodes (UnaryOp op operand) = [op, operand]"
| "child_nodes (Call func args keywords) = func # args @ keywords"
| "child_nodes (Name ident ctx) = [ctx]"
| "child_nodes (Tuple elts ctx) = elts @ [ctx]"
| "child_nodes (Other c children) = children"
| "child_nodes node = []"

section \<open>The evaluator \<^verbatim>\<open>_SafeEval\<close>\<close>

definition ALLOWED_NODES :: "string list" where
  "ALLOWED_NODES =
     [''Expression'', ''BinOp'', ''UnaryOp'', ''Constant'',
      ''Add'', ''Sub'', ''Mult'', ''Div'', ''Mod'', ''Pow'',
      ''UAdd'', ''USub'', ''Load'', ''Call'', ''Name'', ''Tuple'']"

text \<open>
  \<^verbatim>\<open>visit\<close> checks the class of the node against the list and hands the node to the
  \<^verbatim>\<open>visit\<close> of \<^verbatim>\<open>ast.NodeVisitor\<close>, which calls the method \<^verbatim>\<open>visit_\<close>\<open>C\<close> for a node of
  class \<open>C\<close> when the evaluator has one, and \<^verbatim>\<open>generic_visit\<close> otherwise.
  \<^verbatim>\<open>generic_visit\<close> visits the child nodes in the order of the fields, drops what they
  return, and returns \<^verbatim>\<open>None\<close>; an exception of a child ends it.
\<close>

fun visit_Constant :: "node \<Rightarrow> py_error + pyval" where
  "visit_Constant (Constant (CInt i)) = Inr (VInt i)"
| "visit_Constant (Constant (CBool b)) = Inr (VBool b)"
| "visit_Constant (Constant (CFloat x)) = Inr (VFloat x)"
| "visit_Constant (Constant v) = Inl (ValueError ''Only numeric constants are allowed'')"
| "visit_Constant node = Inl AttributeError"

text \<open>
  The measure of the recursion: a node weighs one more than its child nodes, each
  counted with one more than its own weight.
\<close>

fun weight :: "node \<Rightarrow> nat" where
  "weight (Expression body) = Suc (Suc (weight body))"
| "weight (BinOp left op right) =
     Suc (Suc (weight left) + Suc (weight op) + Suc (weight right))"
| "weight (UnaryOp op operand) = Suc (Suc (weight op) + Suc (weight operand))"
| "weight (Call func args keywords) =
     Suc (Suc (weight func) + sum_list (map (\<lambda>n. Suc (weight n)) args)
          + sum_list (map (\<lambda>n. Suc (weight n)) keywords))"
| "weight (Name ident ctx) = Suc (Suc (weight ctx))"
| "weight (Tuple elts ctx) =
     Suc (sum_list (map (\<lambda>n. Suc (weight n)) elts) + Suc (weight ctx))"
| "weight (Other c children) = Suc (sum_list (map (\<lambda>n. Suc (weight n)) children))"
| "weight node = Suc 0"

function (sequential) visit :: "node \<Rightarrow> py_error + pyval"
  and NodeVisitor_visit :: "node \<Rightarrow> py_error + pyval"
  and visit_Expression :: "node \<Rightarrow> py_error + pyval"
  and visit_BinOp :: "node \<Rightarrow> py_error + pyval"
  and visit_UnaryOp :: "node \<Rightarrow> py_error + pyval"
  and generic_visit :: "node \<Rightarrow> py_error + pyval"
  and visit_each :: "node list \<Rightarrow> py_error + pyval"
where
  "visit node =
     (if \<not> isinstance node ALLOWED_NODES
      then Inl (ValueError (''Disallowed expression: '' @ class_name node))
      else NodeVisitor_visit node)"
| "NodeVisitor_visit (Expression body) = visit_Expression (Expression body)"
| "NodeVisitor_visit (BinOp left op right) = visit_BinOp (BinOp left op right)"
| "NodeVisitor_visit (UnaryOp op operand) = visit_UnaryOp (UnaryOp op operand)"
| "NodeVisitor_visit (Constant v) = visit_Constant (Constant v)"
| "NodeVisitor_visit node = generic_visit node"
| "visit_Expression (Expression body) = visit body"
| "visit_Expression node = Inl AttributeError"
| "visit_BinOp (BinOp left op right) =
     (case visit left of
        Inl e \<Rightarrow> Inl e
      | Inr l \<Rightarrow>
          (case visit right of
             Inl e \<Rightarrow> Inl e
           | Inr r \<Rightarrow>
               if isinstance op [''Add''] then py_add l r
               else if isinstance op [''Sub''] then py_sub l r
               else if isinstance op [''Mult''] then py_mul l r
               else if isinstance op [''Div''] then py_truediv l r
               else if isinstance op [''Mod''] then py_mod l r
               else if isinstance op [''Pow''] then py_pow l r
               else Inl (ValueError ''Unsupported operator'')))"
| "visit_BinOp node = Inl AttributeError"
| "visit_UnaryOp (UnaryOp op operand) =
     (case visit operand of
        Inl e \<Rightarrow> Inl e
      | Inr v \<Rightarrow>
          if isinstance op [''UAdd''] then py_pos v
          else if isinstance op [''USub''] then py_neg v
          else Inl (ValueError ''Unsupported unary operator''))"
| "visit_UnaryOp node = Inl AttributeError"
| "generic_visit (Expression body) = visit_each [body]"
| "generic_visit (BinOp left op right) = visit_each [left, op, right]"
| "generic_visit (UnaryOp op operand) = visit_each [op, operand]"
| "generic_visit (Call func args keywords) = visit_each (func # args @ keywords)"
| "generic_visit (Name ident ctx) = visit_each [ctx]"
| "generic_visit (Tuple elts ctx) = visit_each (elts @ [ctx])"
| "generic_visit (Other c children) = visit_each children"
| "generic_visit node = Inr VNone"
| "visit_each [] = Inr VNone"
| "visit_each (n # ns) =
     (case visit n of Inl e \<Rightarrow> Inl e | Inr v \<Rightarrow> visit_each ns)"
  by pat_completeness auto
termination
  by (relation "measures
        [case_sum (case_sum weight (case_sum weight weight))
           (case_sum (case_sum weight weight)
              (case_sum weight (\<lambda>ns. sum_list (map (\<lambda>n. Suc (weight n)) ns)))),
         case_sum (case_sum (\<lambda>n. 2) (case_sum (\<lambda>n. 1) (\<lambda>n. 0)))
           (case_sum (case_sum (\<lambda>n. 0) (\<lambda>n. 0))
              (case_sum (\<lambda>n. 0) (\<lambda>ns. 0)))]")
     auto


subsection \<open>The evaluator on the call stack of the host\<close>

text \<open>
  \<^verbatim>\<open>visit\<close> above is the evaluator on a call stack without a limit. The host admits a
  bounded number of nested calls (\<^verbatim>\<open>sys.getrecursionlimit()\<close>, 1000 unless it is
  changed) and raises \<^verbatim>\<open>RecursionError\<close> at the call that would exceed it; the
  evaluator catches nothing. \<open>visit_lim k node\<close> is \<^verbatim>\<open>visit(node)\<close> called when the
  host admits \<open>k\<close> more nested calls: each call of a method of the evaluator takes one
  of them for as long as it runs, and so does the generator \<^verbatim>\<open>iter_fields\<close> that
  \<^verbatim>\<open>generic_visit\<close> resumes before it visits a child. The calls of built-in
  functions (\<^verbatim>\<open>isinstance\<close>, \<^verbatim>\<open>getattr\<close>, the construction of an exception), which
  return before the next method is called, are not counted: a host that counts them
  while they run needs up to two calls more at the innermost method.
\<close>

fun visit_Constant_lim :: "nat \<Rightarrow> node \<Rightarrow> py_error + pyval" where
  "visit_Constant_lim 0 node = Inl RecursionError"
| "visit_Constant_lim (Suc k) node = visit_Constant node"

function (sequential) visit_lim :: "nat \<Rightarrow> node \<Rightarrow> py_error + pyval"
  and NodeVisitor_visit_lim :: "nat \<Rightarrow> node \<Rightarrow> py_error + pyval"
  and visit_Expression_lim :: "nat \<Rightarrow> node \<Rightarrow> py_error + pyval"
  and visit_BinOp_lim :: "nat \<Rightarrow> node \<Rightarrow> py_error + pyval"
  and visit_UnaryOp_lim :: "nat \<Rightarrow> node \<Rightarrow> py_error + pyval"
  and generic_visit_lim :: "nat \<Rightarrow> node \<Rightarrow> py_error + pyval"
  and visit_each_lim :: "nat \<Rightarrow> node list \<Rightarrow> py_error + pyval"
where
  "visit_lim 0 node = Inl RecursionError"
| "visit_lim (Suc k) node =
     (if \<not> isinstance node ALLOWED_NODES
      then Inl (ValueError (''Disallowed expression: '' @ class_name node))
      else NodeVisitor_visit_lim k node)"
| "NodeVisitor_visit_lim 0 node = Inl RecursionError"
| "NodeVisitor_visit_lim (Suc k) (Expression body) = visit_Expression_lim k (Expression body)"
| "NodeVisitor_visit_lim (Suc k) (BinOp left op right) = visit_BinOp_lim k (BinOp left op right)"
| "NodeVisitor_visit_lim (Suc k) (UnaryOp op operand) = visit_UnaryOp_lim k (UnaryOp op operand)"
| "NodeVisitor_visit_lim (Suc k) (Constant v) = visit_Constant_lim k (Constant v)"
| "NodeVisitor_visit_lim (Suc k) node = generic_visit_lim k node"
| "visit_Expression_lim 0 node = Inl RecursionError"
| "visit_Expression_lim (Suc k) (Expression body) = visit_lim k body"
| "visit_Expression_lim (Suc k) node = Inl AttributeError"
| "visit_BinOp_lim 0 node = Inl RecursionError"
| "visit_BinOp_lim (Suc k) (BinOp left op right) =
     (case visit_lim k left of
        Inl e \<Rightarrow> Inl e
      | Inr l \<Rightarrow>
          (case visit_lim k right of
             Inl e \<Rightarrow> Inl e
           | Inr r \<Rightarrow>
               if isinstance op [''Add''] then py_add l r
               else if isinstance op [''Sub''] then py_sub l r
               else if isinstance op [''Mult''] then py_mul l r
               else if isinstance op [''Div''] then py_truediv l r
               else if isinstance op [''Mod''] then py_mod l r
               else if isinstance op [''Pow''] then py_pow l r
               else Inl (ValueError ''Unsupported operator'')))"
| "visit_BinOp_lim (Suc k) node = Inl AttributeError"
| "visit_UnaryOp_lim 0 node = Inl RecursionError"
| "visit_UnaryOp_lim (Suc k) (UnaryOp op operand) =
     (case visit_lim k operand of
        Inl e \<Rightarrow> Inl e
      | Inr v \<Rightarrow>
          if isinstance op [''UAdd''] then py_pos v
          else if isinstance op [''USub''] then py_neg v
          else Inl (ValueError ''Unsupported unary operator''))"
| "visit_UnaryOp_lim (Suc k) node = Inl AttributeError"
| "generic_visit_lim 0 node = Inl RecursionError"
| "generic_visit_lim (Suc 0) node = Inl RecursionError"
| "generic_visit_lim (Suc (Suc k)) node = visit_each_lim (Suc k) (child_nodes node)"
| "visit_each_lim k [] = Inr VNone"
| "visit_each_lim k (n # ns) =
     (case visit_lim k n of Inl e \<Rightarrow> Inl e | Inr v \<Rightarrow> visit_each_lim k ns)"
  by pat_completeness auto
termination
  by (relation "measures
        [case_sum (case_sum fst (case_sum fst fst))
           (case_sum (case_sum fst fst) (case_sum fst fst)),
         case_sum (case_sum (\<lambda>p. 0) (case_sum (\<lambda>p. 0) (\<lambda>p. 0)))
           (case_sum (case_sum (\<lambda>p. 0) (\<lambda>p. 0))
              (case_sum (\<lambda>p. 0) (\<lambda>p. Suc 0))),
         case_sum (case_sum (\<lambda>p. 0) (case_sum (\<lambda>p. 0) (\<lambda>p. 0)))
           (case_sum (case_sum (\<lambda>p. 0) (\<lambda>p. 0))
              (case_sum (\<lambda>p. 0) (\<lambda>p. length (snd p))))]")
     auto


section \<open>\<^verbatim>\<open>safe_eval\<close> and its caller\<close>

text \<open>
  \<^verbatim>\<open>str.isspace\<close> on the characters below 256 (a \<open>char\<close> is read as that code point):
  tab to carriage return, the four separators \<^verbatim>\<open>0x1c\<close> to \<^verbatim>\<open>0x1f\<close>, the space,
  \<^verbatim>\<open>0x85\<close> and \<^verbatim>\<open>0xa0\<close>.
\<close>

definition isspace :: "char \<Rightarrow> bool" where
  "isspace c =
     (let n = (of_char c :: nat)
      in (9 \<le> n \<and> n \<le> 13) \<or> (28 \<le> n \<and> n \<le> 32) \<or> n = 133 \<or> n = 160)"

text \<open>\<^verbatim>\<open>str.strip()\<close>: the string without its leading and trailing whitespace.\<close>

definition strip :: "string \<Rightarrow> string" where
  "strip s = rev (dropWhile isspace (rev (dropWhile isspace s)))"

text \<open>
  \<^verbatim>\<open>ast.parse(expr, mode="eval")\<close> is the parser of the host, not code of the program:
  \<open>safe_eval\<close> takes it as the parameter \<open>ast_parse\<close>, which returns the tree or the
  exception the parser raises.
\<close>

definition safe_eval :: "(string \<Rightarrow> py_error + node) \<Rightarrow> string \<Rightarrow> py_error + pyval" where
  "safe_eval ast_parse expr =
     (let expr = strip expr
      in if expr = [] then Inl (ValueError ''Empty expression'')
         else (case ast_parse expr of
                 Inl e \<Rightarrow> Inl e
               | Inr node \<Rightarrow> visit node))"

text \<open>
  \<^verbatim>\<open>CalculatorApp.calculate\<close>, up to the object it hands to \<^verbatim>\<open>str\<close> for the display,
  or the exception it hands to the error dialog. \<^verbatim>\<open>int(result)\<close> truncates towards
  zero.
\<close>

datatype outcome = Display pyval | ShowError py_error

definition float_is_integer :: "real \<Rightarrow> bool" where
  "float_is_integer x = (of_int \<lfloor>x\<rfloor> = x)"

definition int_of_float :: "real \<Rightarrow> int" where
  "int_of_float x = (if 0 \<le> x then \<lfloor>x\<rfloor> else \<lceil>x\<rceil>)"

definition calculate :: "(string \<Rightarrow> py_error + node) \<Rightarrow> string \<Rightarrow> outcome" where
  "calculate ast_parse expr =
     (case safe_eval ast_parse expr of
        Inl e \<Rightarrow> ShowError e
      | Inr result \<Rightarrow>
          (case result of
             VFloat x \<Rightarrow>
               if float_is_integer x then Display (VInt (int_of_float x))
               else Display result
           | _ \<Rightarrow> Display result))"


section \<open>The host's parser on the arithmetic fragment\<close>

text \<open>
  \<open>py_parse\<close> is a model of \<^verbatim>\<open>ast.parse(expr, mode="eval")\<close> on the expressions made of
  decimal numbers, names, parentheses, tuples, calls with positional arguments,
  attribute references and the arithmetic operators. It serves as the instance of the
  parameter \<open>ast_parse\<close> at concrete inputs; outside this fragment it raises
  \<^verbatim>\<open>SyntaxError\<close>, where the host may accept the input.
\<close>

datatype token =
    NUMBER py_const | NAME string
  | PLUS | MINUS | STAR | SLASH | DOUBLESLASH | PERCENT | DOUBLESTAR | AT | TILDE
  | LPAR | RPAR | COMMA | DOT

definition is_digit :: "char \<Rightarrow> bool" where
  "is_digit c = (let n = (of_char c :: nat) in 48 \<le> n \<and> n \<le> 57)"

definition is_name_start :: "char \<Rightarrow> bool" where
  "is_name_start c =
     (let n = (of_char c :: nat)
      in (65 \<le> n \<and> n \<le> 90) \<or> (97 \<le> n \<and> n \<le> 122) \<or> n = 95)"

definition is_name_char :: "char \<Rightarrow> bool" where
  "is_name_char c = (is_name_start c \<or> is_digit c)"

definition int_of_digits :: "string \<Rightarrow> int" where
  "int_of_digits ds = foldl (\<lambda>a c. 10 * a + (int (of_char c) - 48)) 0 ds"

definition kwlist :: "string list" where
  "kwlist =
     [''and'', ''as'', ''assert'', ''async'', ''await'', ''break'', ''class'', ''continue'',
      ''def'', ''del'', ''elif'', ''else'', ''except'', ''finally'', ''for'', ''from'',
      ''global'', ''if'', ''import'', ''in'', ''is'', ''lambda'', ''nonlocal'', ''not'',
      ''or'', ''pass'', ''raise'', ''return'', ''try'', ''while'', ''with'', ''yield'']"

text \<open>
  The tokenizer is an automaton over the characters: \<open>step\<close> gives the tokens that a
  character completes and the next state, \<open>finish\<close> the token that is pending when a
  state is left. A whole number with a leading zero, a keyword of the language, and a
  character outside the fragment are syntax errors.
\<close>

datatype lex_state =
    Start | InInt string | InFrac string string | InName string
  | AfterStar | AfterSlash | AfterDot

definition start :: "char \<Rightarrow> (token list \<times> lex_state) option" where
  "start c =
     (if c = CHR '' '' \<or> c = CHR 0x09 then Some ([], Start)
      else if is_digit c then Some ([], InInt [c])
      else if is_name_start c then Some ([], InName [c])
      else if c = CHR ''.'' then Some ([], AfterDot)
      else if c = CHR ''*'' then Some ([], AfterStar)
      else if c = CHR ''/'' then Some ([], AfterSlash)
      else if c = CHR ''+'' then Some ([PLUS], Start)
      else if c = CHR ''-'' then Some ([MINUS], Start)
      else if c = CHR ''%'' then Some ([PERCENT], Start)
      else if c = CHR ''@'' then Some ([AT], Start)
      else if c = CHR ''~'' then Some ([TILDE], Start)
      else if c = CHR ''('' then Some ([LPAR], Start)
      else if c = CHR '')'' then Some ([RPAR], Start)
      else if c = CHR '','' then Some ([COMMA], Start)
      else None)"

fun finish :: "lex_state \<Rightarrow> token list option" where
  "finish Start = Some []"
| "finish (InInt ds) =
     (if 1 < length ds \<and> hd ds = CHR ''0'' \<and> int_of_digits ds \<noteq> 0 then None
      else Some [NUMBER (CInt (int_of_digits ds))])"
| "finish (InFrac ip fp) =
     Some [NUMBER (CFloat (of_int (int_of_digits (ip @ fp)) / 10 ^ length fp))]"
| "finish (InName x) = (if x \<in> set kwlist then None else Some [NAME x])"
| "finish AfterStar = Some [STAR]"
| "finish AfterSlash = Some [SLASH]"
| "finish AfterDot = Some [DOT]"

definition leave :: "lex_state \<Rightarrow> char \<Rightarrow> (token list \<times> lex_state) option" where
  "leave st c =
     (case finish st of
        None \<Rightarrow> None
      | Some ts \<Rightarrow>
          (case start c of None \<Rightarrow> None | Some (ts', st') \<Rightarrow> Some (ts @ ts', st')))"

fun step :: "lex_state \<Rightarrow> char \<Rightarrow> (token list \<times> lex_state) option" where
  "step Start c = start c"
| "step (InInt ds) c =
     (if is_digit c then Some ([], InInt (ds @ [c]))
      else if c = CHR ''.'' then Some ([], InFrac ds [])
      else if is_name_char c then None
      else leave (InInt ds) c)"
| "step (InFrac ip fp) c =
     (if is_digit c then Some ([], InFrac ip (fp @ [c]))
      else if is_name_char c \<or> c = CHR ''.'' then None
      else leave (InFrac ip fp) c)"
| "step (InName x) c =
     (if is_name_char c then Some ([], InName (x @ [c])) else leave (InName x) c)"
| "step AfterStar c =
     (if c = CHR ''*'' then Some ([DOUBLESTAR], Start) else leave AfterStar c)"
| "step AfterSlash c =
     (if c = CHR ''/'' then Some ([DOUBLESLASH], Start) else leave AfterSlash c)"
| "step AfterDot c =
     (if is_digit c then Some ([], InFrac [] [c]) else leave AfterDot c)"

fun scan :: "lex_state \<Rightarrow> string \<Rightarrow> token list option" where
  "scan st [] = finish st"
| "scan st (c # cs) =
     (case step st c of
        None \<Rightarrow> None
      | Some (ts, st') \<Rightarrow> map_option ((@) ts) (scan st' cs))"

definition tokenize :: "string \<Rightarrow> token list option" where
  "tokenize s = scan Start s"

definition atom_of_name :: "string \<Rightarrow> node" where
  "atom_of_name x =
     (if x = ''True'' then Constant (CBool True)
      else if x = ''False'' then Constant (CBool False)
      else if x = ''None'' then Constant CNone
      else Name x Load)"

text \<open>
  The parser follows the grammar of the language reference, with fuel for the depth of
  the recursion:
  \<^verbatim>\<open>sum: sum ('+'|'-') term | term\<close>,
  \<^verbatim>\<open>term: term ('*'|'/'|'//'|'%'|'@') factor | factor\<close>,
  \<^verbatim>\<open>factor: ('+'|'-'|'~') factor | power\<close>,
  \<^verbatim>\<open>power: primary ['**' factor]\<close>,
  \<^verbatim>\<open>primary: primary '.' NAME | primary '(' [args] ')' | atom\<close>,
  \<^verbatim>\<open>atom: NAME | NUMBER | '(' [sum (',' sum)* [',']] ')'\<close>.
\<close>

definition next_is :: "token \<Rightarrow> token list \<Rightarrow> bool" where
  "next_is t ts = (case ts of [] \<Rightarrow> False | t' # r \<Rightarrow> t' = t)"

function p_sum :: "nat \<Rightarrow> token list \<Rightarrow> (node \<times> token list) option"
  and p_sum_rest :: "nat \<Rightarrow> node \<Rightarrow> token list \<Rightarrow> (node \<times> token list) option"
  and p_term :: "nat \<Rightarrow> token list \<Rightarrow> (node \<times> token list) option"
  and p_term_rest :: "nat \<Rightarrow> node \<Rightarrow> token list \<Rightarrow> (node \<times> token list) option"
  and p_factor :: "nat \<Rightarrow> token list \<Rightarrow> (node \<times> token list) option"
  and p_power :: "nat \<Rightarrow> token list \<Rightarrow> (node \<times> token list) option"
  and p_primary :: "nat \<Rightarrow> node \<Rightarrow> token list \<Rightarrow> (node \<times> token list) option"
  and p_atom :: "nat \<Rightarrow> token list \<Rightarrow> (node \<times> token list) option"
  and p_items :: "nat \<Rightarrow> token list \<Rightarrow> (node list \<times> token list) option"
where
  "p_sum 0 ts = None"
| "p_sum (Suc n) ts =
     (case p_term n ts of None \<Rightarrow> None | Some (l, r) \<Rightarrow> p_sum_rest n l r)"
| "p_sum_rest 0 l ts = None"
| "p_sum_rest (Suc n) l ts =
     (if next_is PLUS ts \<or> next_is MINUS ts then
        (case p_term n (tl ts) of
           None \<Rightarrow> None
         | Some (e, r) \<Rightarrow>
             p_sum_rest n (BinOp l (if next_is PLUS ts then Add else Sub) e) r)
      else Some (l, ts))"
| "p_term 0 ts = None"
| "p_term (Suc n) ts =
     (case p_factor n ts of None \<Rightarrow> None | Some (l, r) \<Rightarrow> p_term_rest n l r)"
| "p_term_rest 0 l ts = None"
| "p_term_rest (Suc n) l ts =
     (if next_is STAR ts \<or> next_is SLASH ts \<or> next_is DOUBLESLASH ts
         \<or> next_is PERCENT ts \<or> next_is AT ts then
        (case p_factor n (tl ts) of
           None \<Rightarrow> None
         | Some (e, r) \<Rightarrow>
             p_term_rest n
               (BinOp l
                  (if next_is STAR ts then Mult
                   else if next_is SLASH ts then Div
                   else if next_is DOUBLESLASH ts then Other FloorDiv []
                   else if next_is PERCENT ts then Mod
                   else Other MatMult [])
                  e) r)
      else Some (l, ts))"
| "p_factor 0 ts = None"
| "p_factor (Suc n) ts =
     (if next_is PLUS ts \<or> next_is MINUS ts \<or> next_is TILDE ts then
        (case p_factor n (tl ts) of
           None \<Rightarrow> None
         | Some (e, r) \<Rightarrow>
             Some (UnaryOp
                     (if next_is PLUS ts then UAdd
                      else if next_is MINUS ts then USub
                      else Other Invert [])
                     e, r))
      else p_power n ts)"
| "p_power 0 ts = None"
| "p_power (Suc n) ts =
     (case p_atom n ts of
        None \<Rightarrow> None
      | Some (a, r) \<Rightarrow>
          (case p_primary n a r of
             None \<Rightarrow> None
           | Some (b, r') \<Rightarrow>
               if next_is DOUBLESTAR r' then
                 (case p_factor n (tl r') of
                    None \<Rightarrow> None
                  | Some (e, r'') \<Rightarrow> Some (BinOp b PowOp e, r''))
               else Some (b, r')))"
| "p_primary 0 a ts = None"
| "p_primary (Suc n) a ts =
     (if next_is LPAR ts then
        (case p_items n (tl ts) of
           None \<Rightarrow> None
         | Some (args, r) \<Rightarrow> p_primary n (Call a args []) r)
      else if next_is DOT ts then
        (case tl ts of
           NAME x # r \<Rightarrow> p_primary n (Other Attribute [a, Load]) r
         | _ \<Rightarrow> None)
      else Some (a, ts))"
| "p_atom 0 ts = None"
| "p_atom (Suc n) ts =
     (case ts of
        [] \<Rightarrow> None
      | NUMBER c # r \<Rightarrow> Some (Constant c, r)
      | NAME x # r \<Rightarrow> Some (atom_of_name x, r)
      | t # r \<Rightarrow>
          if t \<noteq> LPAR then None
          else if next_is RPAR r then Some (Tuple [] Load, tl r)
          else
            (case p_sum n r of
               None \<Rightarrow> None
             | Some (e, r') \<Rightarrow>
                 if next_is RPAR r' then Some (e, tl r')
                 else if next_is COMMA r' then
                   (case p_items n (tl r') of
                      None \<Rightarrow> None
                    | Some (es, r'') \<Rightarrow> Some (Tuple (e # es) Load, r''))
                 else None))"
| "p_items 0 ts = None"
| "p_items (Suc n) ts =
     (if next_is RPAR ts then Some ([], tl ts)
      else
        (case p_sum n ts of
           None \<Rightarrow> None
         | Some (e, r) \<Rightarrow>
             if next_is RPAR r then Some ([e], tl r)
             else if next_is COMMA r then
               (case p_items n (tl r) of
                  None \<Rightarrow> None
                | Some (es, r') \<Rightarrow> Some (e # es, r'))
             else None))"
  by pat_completeness auto
termination
  by (relation "measure
        (case_sum
           (case_sum (case_sum fst fst) (case_sum fst fst))
           (case_sum (case_sum fst fst) (case_sum fst (case_sum fst fst))))")
     auto

text \<open>
  Every call passes on one unit of fuel less, and no chain of calls is longer than six
  calls for each token, so the fuel below never runs out.
\<close>

definition py_parse :: "string \<Rightarrow> py_error + node" where
  "py_parse s =
     (case tokenize s of
        None \<Rightarrow> Inl SyntaxError
      | Some ts \<Rightarrow>
          (case p_sum (6 * length ts + 6) ts of
             None \<Rightarrow> Inl SyntaxError
           | Some (e, r) \<Rightarrow> if r = [] then Inr (Expression e) else Inl SyntaxError))"


section \<open>Notions used in the statements\<close>

text \<open>\<open>nest n e\<close> is \<open>e\<close> below \<open>n\<close> unary minus signs; \<open>depth\<close> is the nesting depth of a tree.\<close>

fun nest :: "nat \<Rightarrow> node \<Rightarrow> node" where
  "nest 0 e = e"
| "nest (Suc n) e = UnaryOp USub (nest n e)"

fun depth :: "node \<Rightarrow> nat" where
  "depth (Expression body) = depth body"
| "depth (BinOp left op right) = Suc (max (depth left) (depth right))"
| "depth (UnaryOp op operand) = Suc (depth operand)"
| "depth (Call func args keywords) =
     Suc (fold max (map depth (func # args @ keywords)) 0)"
| "depth (Tuple elts ctx) = Suc (fold max (map depth elts) 0)"
| "depth (Other c children) = Suc (fold max (map depth children) 0)"
| "depth node = 0"

text \<open>
  The number of nested calls that the visit of a tree takes when no visit fails: three
  for a node with a method of its own (\<^verbatim>\<open>visit\<close>, the \<^verbatim>\<open>visit\<close> of \<^verbatim>\<open>NodeVisitor\<close>, the
  method), above the most that a visited child takes; the operator of a \<^verbatim>\<open>BinOp\<close> or
  \<^verbatim>\<open>UnaryOp\<close> is not visited. A node of a class outside the list is turned down in the
  first call.
\<close>

fun frames :: "node \<Rightarrow> nat" where
  "frames (Expression body) = 3 + frames body"
| "frames (BinOp left op right) = 3 + max (frames left) (frames right)"
| "frames (UnaryOp op operand) = 3 + frames operand"
| "frames (Constant v) = 3"
| "frames (Call func args keywords) =
     3 + fold max (map frames (func # args @ keywords)) 0"
| "frames (Name ident ctx) = 3 + frames ctx"
| "frames (Tuple elts ctx) = 3 + fold max (map frames (elts @ [ctx])) 0"
| "frames (Other c children) = 1"
| "frames node = 4"

text \<open>The real number that an \<^verbatim>\<open>int\<close>, a \<^verbatim>\<open>bool\<close> or a \<^verbatim>\<open>float\<close> denotes.\<close>

fun real_value :: "pyval \<Rightarrow> real option" where
  "real_value (VInt i) = Some (of_int i)"
| "real_value (VBool b) = Some (if b then 1 else 0)"
| "real_value (VFloat x) = Some x"
| "real_value v = None"

text \<open>
  An outcome that is a \<^verbatim>\<open>float\<close> or a \<^verbatim>\<open>complex\<close> object, whatever its value; and an
  outcome that is a \<^verbatim>\<open>complex\<close> object with an imaginary part.
\<close>

fun is_float :: "pyval \<Rightarrow> bool" where
  "is_float (VFloat x) = True"
| "is_float v = False"


text \<open>
  The exceptions that leave \<^verbatim>\<open>visit\<close>: the four \<^verbatim>\<open>ValueError\<close>s that the evaluator raises
  (the first with the name of a class outside the list), and the three that the
  arithmetic of the host raises.
\<close>

definition evaluator_errors :: "py_error set" where
  "evaluator_errors =
     range (\<lambda>c. ValueError (''Disallowed expression: '' @ other_name c))
     \<union> {ValueError ''Unsupported operator'', ValueError ''Unsupported unary operator'',
        ValueError ''Only numeric constants are allowed'',
        ZeroDivisionError, OverflowError, TypeError}"


section \<open>Unfolding the visitor\<close>

declare visit.simps(1) [simp del]

lemma other_name_not_allowed: "other_name c \<notin> set ALLOWED_NODES"
  by (cases c) (simp_all add: ALLOWED_NODES_def)

lemma allowed_iff: "isinstance node ALLOWED_NODES \<longleftrightarrow> (\<forall>c ns. node \<noteq> Other c ns)"
  using other_name_not_allowed
  by (cases node) (simp_all add: isinstance_def, simp_all add: ALLOWED_NODES_def)

lemma isinstance_op:
  "isinstance op [''Add''] \<longleftrightarrow> op = Add" "isinstance op [''Sub''] \<longleftrightarrow> op = Sub"
  "isinstance op [''Mult''] \<longleftrightarrow> op = Mult" "isinstance op [''Div''] \<longleftrightarrow> op = Div"
  "isinstance op [''Mod''] \<longleftrightarrow> op = Mod" "isinstance op [''Pow''] \<longleftrightarrow> op = PowOp"
  "isinstance op [''UAdd''] \<longleftrightarrow> op = UAdd" "isinstance op [''USub''] \<longleftrightarrow> op = USub"
  using other_name_not_allowed
  by (cases op; auto simp: isinstance_def ALLOWED_NODES_def)+

lemma visit_Other: "visit (Other c ns) = Inl (ValueError (''Disallowed expression: '' @ other_name c))"
  by (subst visit.simps(1)) (simp add: allowed_iff)

lemma visit_Expression_eq: "visit (Expression body) = visit body"
  by (subst visit.simps(1)) (simp add: allowed_iff)

lemma visit_Constant_eq: "visit (Constant c) = visit_Constant (Constant c)"
  by (subst visit.simps(1)) (simp add: allowed_iff)

lemma visit_BinOp_eq:
  "visit (BinOp left op right) =
     (case visit left of
        Inl e \<Rightarrow> Inl e
      | Inr l \<Rightarrow>
          (case visit right of
             Inl e \<Rightarrow> Inl e
           | Inr r \<Rightarrow>
               if op = Add then py_add l r
               else if op = Sub then py_sub l r
               else if op = Mult then py_mul l r
               else if op = Div then py_truediv l r
               else if op = Mod then py_mod l r
               else if op = PowOp then py_pow l r
               else Inl (ValueError ''Unsupported operator'')))"
  by (subst visit.simps(1)) (simp add: allowed_iff isinstance_op cong: sum.case_cong if_cong)

lemma visit_UnaryOp_eq:
  "visit (UnaryOp op operand) =
     (case visit operand of
        Inl e \<Rightarrow> Inl e
      | Inr v \<Rightarrow>
          if op = UAdd then py_pos v
          else if op = USub then py_neg v
          else Inl (ValueError ''Unsupported unary operator''))"
  by (subst visit.simps(1)) (simp add: allowed_iff isinstance_op cong: sum.case_cong if_cong)

lemma visit_generic:
  "visit (Call func args keywords) = visit_each (func # args @ keywords)"
  "visit (Name ident ctx) = visit_each [ctx]"
  "visit (Tuple elts ctx) = visit_each (elts @ [ctx])"
  "visit Load = Inr VNone"
  by (subst visit.simps(1), simp add: allowed_iff)+

lemmas visit_eqs = visit_Other visit_Expression_eq visit_Constant_eq visit_BinOp_eq
  visit_UnaryOp_eq visit_generic


lemma visit_leaf:
  "visit Add = Inr VNone" "visit Sub = Inr VNone" "visit Mult = Inr VNone"
  "visit Div = Inr VNone" "visit Mod = Inr VNone" "visit PowOp = Inr VNone"
  "visit UAdd = Inr VNone" "visit USub = Inr VNone"
  by (subst visit.simps(1), simp add: allowed_iff)+

lemma visit_each_Inl: "visit_each ns = Inl e \<Longrightarrow> \<exists>n\<in>set ns. visit n = Inl e"
  by (induction ns) (auto split: sum.splits)

lemma visit_each_Inr: "visit_each ns = Inr v \<Longrightarrow> v = VNone"
  by (induction ns) (auto split: sum.splits)

lemma visit_each_None_iff:
  "visit_each ns = Inr VNone \<longleftrightarrow> (\<forall>n\<in>set ns. \<exists>v. visit n = Inr v)"
  by (induction ns) (auto split: sum.splits)


lemma float_result_error: "float_result x = Inl e \<Longrightarrow> e = OverflowError"
  by (auto simp: float_result_def split: if_splits)

lemma complex_result_error: "complex_result z = Inl e \<Longrightarrow> e = OverflowError"
  by (auto simp: complex_result_def split: if_splits)

lemma int_to_float_error: "int_to_float i = Inl e \<Longrightarrow> e = OverflowError"
  by (auto simp: int_to_float_def split: if_splits)

lemma complex_pow_error:
  "complex_pow z w = Inl e \<Longrightarrow> e = ZeroDivisionError \<or> e = OverflowError"
  by (auto simp: complex_pow_def split: if_splits dest: complex_result_error)

lemma float_pow_error:
  "float_pow x y = Inl e \<Longrightarrow> e = ZeroDivisionError \<or> e = OverflowError"
  by (auto simp: float_pow_def split: if_splits
      dest: complex_pow_error float_result_error)

lemma widen_error: "widen a b = Inl e \<Longrightarrow> e = OverflowError"
  by (cases a; cases b) (auto split: sum.splits dest: int_to_float_error)

lemma coerce_error: "coerce l r = Inl e \<Longrightarrow> e = TypeError \<or> e = OverflowError"
  by (auto simp: coerce_def split: option.splits dest: widen_error)

lemma binop_error:
  "py_add l r = Inl e \<Longrightarrow> e = TypeError \<or> e = OverflowError"
  "py_sub l r = Inl e \<Longrightarrow> e = TypeError \<or> e = OverflowError"
  "py_mul l r = Inl e \<Longrightarrow> e = TypeError \<or> e = OverflowError"
  "py_truediv l r = Inl e \<Longrightarrow> e = TypeError \<or> e = OverflowError \<or> e = ZeroDivisionError"
  "py_mod l r = Inl e \<Longrightarrow> e = TypeError \<or> e = OverflowError \<or> e = ZeroDivisionError"
  "py_pow l r = Inl e \<Longrightarrow> e = TypeError \<or> e = OverflowError \<or> e = ZeroDivisionError"
  by (auto simp: py_add_def py_sub_def py_mul_def py_truediv_def py_mod_def py_pow_def
      split: sum.splits operands.splits if_splits
      dest: complex_pow_error float_pow_error coerce_error float_result_error
        int_to_float_error)

lemma unop_error:
  "py_pos v = Inl e \<Longrightarrow> e = TypeError" "py_neg v = Inl e \<Longrightarrow> e = TypeError"
  by (cases v; simp)+

lemma visit_Constant_error:
  "visit_Constant (Constant c) = Inl e \<Longrightarrow> e = ValueError ''Only numeric constants are allowed''"
  by (cases c) auto

lemma host_errors: "{ZeroDivisionError, OverflowError, TypeError} \<subseteq> evaluator_errors"
  by (simp add: evaluator_errors_def)

lemma visit_error: "visit node = Inl e \<Longrightarrow> e \<in> evaluator_errors"
proof (induction node arbitrary: e)
  case (Expression body)
  then show ?case by (simp add: visit_Expression_eq)
next
  case (BinOp left op right)
  have u: "ValueError ''Unsupported operator'' \<in> evaluator_errors"
    by (simp add: evaluator_errors_def)
  from BinOp.prems show ?case
    using BinOp.IH(1) BinOp.IH(3) u host_errors
    by (auto simp: visit_BinOp_eq split: sum.splits if_splits dest!: binop_error)
next
  case (UnaryOp op operand)
  from UnaryOp.prems show ?case
    using UnaryOp.IH(2)
    by (auto simp: visit_UnaryOp_eq evaluator_errors_def split: sum.splits if_splits
        dest!: unop_error)
next
  case (Constant c)
  then show ?case
    by (auto simp: visit_Constant_eq evaluator_errors_def dest!: visit_Constant_error)
next
  case (Call func args kws)
  from Call.prems have "visit_each (func # args @ kws) = Inl e"
    by (simp only: visit_generic)
  then obtain n where "n \<in> set (func # args @ kws)" "visit n = Inl e"
    by (blast dest: visit_each_Inl)
  then show ?case using Call.IH by auto
next
  case (Name ident ctx)
  then show ?case by (auto simp: visit_generic split: sum.splits)
next
  case (Tuple elts ctx)
  from Tuple.prems have "visit_each (elts @ [ctx]) = Inl e"
    by (simp only: visit_generic)
  then obtain n where "n \<in> set (elts @ [ctx])" "visit n = Inl e"
    by (blast dest: visit_each_Inl)
  then show ?case using Tuple.IH by auto
next
  case (Other c children)
  then have "e = ValueError (''Disallowed expression: '' @ other_name c)"
    by (simp add: visit_Other)
  then show ?case unfolding evaluator_errors_def by blast
qed (simp_all add: visit_leaf visit_generic)

lemma strip_empty_iff: "strip s = [] \<longleftrightarrow> (\<forall>c\<in>set s. isspace c)"
proof -
  have "dropWhile isspace (rev (dropWhile isspace s)) = [] \<longleftrightarrow> dropWhile isspace s = []"
  proof
    assume a: "dropWhile isspace (rev (dropWhile isspace s)) = []"
    show "dropWhile isspace s = []"
    proof (rule ccontr)
      assume b: "dropWhile isspace s \<noteq> []"
      then have "\<not> isspace (hd (dropWhile isspace s))" by (rule hd_dropWhile)
      moreover have "hd (dropWhile isspace s) \<in> set (rev (dropWhile isspace s))"
        using b by simp
      ultimately show False using a by (auto simp: dropWhile_eq_Nil_conv)
    qed
  qed (auto dest: set_dropWhileD)
  then show ?thesis by (simp add: strip_def dropWhile_eq_Nil_conv)
qed

subsection \<open>The visitor on the call stack of the host\<close>

lemma fold_max_le:
  "fold max xs a \<le> m \<longleftrightarrow> a \<le> m \<and> (\<forall>x\<in>set xs. x \<le> m)" for m :: nat
  by (induction xs arbitrary: a) auto

lemma frames_pos: "0 < frames node"
  by (cases node) simp_all

lemma three_Suc: "3 \<le> k \<Longrightarrow> k = Suc (Suc (Suc (k - 3)))"
  by simp

lemma visit_lim_Other:
  "0 < k \<Longrightarrow> visit_lim k (Other c ns)
     = Inl (ValueError (''Disallowed expression: '' @ other_name c))"
  by (cases k) (simp_all add: allowed_iff)

lemma visit_lim_low:
  assumes "k < 3" and "isinstance node ALLOWED_NODES"
  shows "visit_lim k node = Inl RecursionError"
proof -
  consider "k = 0" | "k = Suc 0" | "k = Suc (Suc 0)" using assms(1) by linarith
  then show ?thesis
    using assms(2) by cases (cases node; simp add: allowed_iff)+
qed

lemma visit_lim_Expression:
  "3 \<le> k \<Longrightarrow> visit_lim k (Expression body) = visit_lim (k - 3) body"
  by (subst three_Suc, assumption) (simp add: allowed_iff)

lemma visit_lim_Constant:
  "3 \<le> k \<Longrightarrow> visit_lim k (Constant c) = visit_Constant (Constant c)"
  by (subst three_Suc, assumption) (simp add: allowed_iff)

lemma visit_lim_BinOp:
  "3 \<le> k \<Longrightarrow> visit_lim k (BinOp left op right) =
     (case visit_lim (k - 3) left of
        Inl e \<Rightarrow> Inl e
      | Inr l \<Rightarrow>
          (case visit_lim (k - 3) right of
             Inl e \<Rightarrow> Inl e
           | Inr r \<Rightarrow>
               if op = Add then py_add l r
               else if op = Sub then py_sub l r
               else if op = Mult then py_mul l r
               else if op = Div then py_truediv l r
               else if op = Mod then py_mod l r
               else if op = PowOp then py_pow l r
               else Inl (ValueError ''Unsupported operator'')))"
  by (subst three_Suc, assumption)
     (simp add: allowed_iff isinstance_op cong: sum.case_cong if_cong)

lemma visit_lim_UnaryOp:
  "3 \<le> k \<Longrightarrow> visit_lim k (UnaryOp op operand) =
     (case visit_lim (k - 3) operand of
        Inl e \<Rightarrow> Inl e
      | Inr v \<Rightarrow>
          if op = UAdd then py_pos v
          else if op = USub then py_neg v
          else Inl (ValueError ''Unsupported unary operator''))"
  by (subst three_Suc, assumption)
     (simp add: allowed_iff isinstance_op cong: sum.case_cong if_cong)

lemma four_Suc: "4 \<le> k \<Longrightarrow> k = Suc (Suc (Suc (Suc (k - 4))))"
  by simp

lemma visit_lim_generic:
  assumes "4 \<le> k"
  shows "visit_lim k (Call func args kws) = visit_each_lim (k - 3) (func # args @ kws)"
    "visit_lim k (Name ident ctx) = visit_each_lim (k - 3) [ctx]"
    "visit_lim k (Tuple elts ctx) = visit_each_lim (k - 3) (elts @ [ctx])"
    "visit_lim k Load = Inr VNone"
    "visit_lim k Add = Inr VNone" "visit_lim k Sub = Inr VNone"
    "visit_lim k Mult = Inr VNone" "visit_lim k Div = Inr VNone"
    "visit_lim k Mod = Inr VNone" "visit_lim k PowOp = Inr VNone"
    "visit_lim k UAdd = Inr VNone" "visit_lim k USub = Inr VNone"
proof -
  have s: "k - 3 = Suc (k - 4)" using assms by simp
  show "visit_lim k (Call func args kws) = visit_each_lim (k - 3) (func # args @ kws)"
    "visit_lim k (Name ident ctx) = visit_each_lim (k - 3) [ctx]"
    "visit_lim k (Tuple elts ctx) = visit_each_lim (k - 3) (elts @ [ctx])"
    "visit_lim k Load = Inr VNone"
    "visit_lim k Add = Inr VNone" "visit_lim k Sub = Inr VNone"
    "visit_lim k Mult = Inr VNone" "visit_lim k Div = Inr VNone"
    "visit_lim k Mod = Inr VNone" "visit_lim k PowOp = Inr VNone"
    "visit_lim k UAdd = Inr VNone" "visit_lim k USub = Inr VNone"
    unfolding s
    by (subst four_Suc [OF assms], simp add: allowed_iff)+
qed

lemma visit_lim_generic_low:
  assumes "k < 4"
    and "node = Call func args kws \<or> node = Name ident ctx \<or> node = Tuple elts ctx
         \<or> node \<in> {Load, Add, Sub, Mult, Div, Mod, PowOp, UAdd, USub}"
  shows "visit_lim k node = Inl RecursionError"
proof -
  consider "k = 0" | "k = Suc 0" | "k = Suc (Suc 0)" | "k = Suc (Suc (Suc 0))"
    using assms(1) by linarith
  then show ?thesis
    using assms(2) by cases (auto simp: allowed_iff)
qed

lemma visit_each_lim_cong:
  "(\<And>n. n \<in> set ns \<Longrightarrow> visit_lim k n = visit n) \<Longrightarrow> visit_each_lim k ns = visit_each ns"
  by (induction ns) (simp_all cong: sum.case_cong)

lemma visit_each_lim_Inl: "visit_each_lim k ns = Inl e \<Longrightarrow> \<exists>n\<in>set ns. visit_lim k n = Inl e"
  by (induction ns) (auto split: sum.splits)

lemma visit_each_lim_Inr:
  "visit_each_lim k ns = Inr v \<Longrightarrow> \<forall>n\<in>set ns. \<exists>w. visit_lim k n = Inr w"
  by (induction ns) (auto split: sum.splits)

lemma visit_lim_enough: "frames node \<le> k \<Longrightarrow> visit_lim k node = visit node"
proof (induction node arbitrary: k)
  case (Expression body)
  then show ?case by (simp add: visit_lim_Expression visit_Expression_eq)
next
  case (BinOp left op right)
  then have "visit_lim (k - 3) left = visit left" "visit_lim (k - 3) right = visit right"
    by simp_all
  then show ?case using BinOp.prems
    by (simp add: visit_lim_BinOp visit_BinOp_eq cong: sum.case_cong)
next
  case (UnaryOp op operand)
  then have "visit_lim (k - 3) operand = visit operand" by simp
  then show ?case using UnaryOp.prems
    by (simp add: visit_lim_UnaryOp visit_UnaryOp_eq cong: sum.case_cong)
next
  case (Constant c)
  then show ?case by (simp add: visit_lim_Constant visit_Constant_eq)
next
  case (Call func args kws)
  have m: "fold max (map frames (func # args @ kws)) 0 \<le> k - 3"
    using Call.prems unfolding frames.simps by linarith
  then have c: "\<forall>n\<in>set (func # args @ kws). frames n \<le> k - 3"
    by (auto simp: fold_max_le)
  then have "frames func \<le> k - 3" by simp
  then have "4 \<le> k" using frames_pos [of func] Call.prems by simp
  moreover have "visit_each_lim (k - 3) (func # args @ kws) = visit_each (func # args @ kws)"
    by (rule visit_each_lim_cong) (use c Call.IH in auto)
  ultimately show ?case by (simp add: visit_lim_generic visit_generic)
next
  case (Name ident ctx)
  then have "frames ctx \<le> k - 3" by simp
  moreover from this have "4 \<le> k" using frames_pos [of ctx] Name.prems by simp
  ultimately show ?case using Name.IH [of "k - 3"]
    by (simp add: visit_lim_generic visit_generic cong: sum.case_cong)
next
  case (Tuple elts ctx)
  have m: "fold max (map frames (elts @ [ctx])) 0 \<le> k - 3"
    using Tuple.prems unfolding frames.simps by linarith
  then have c: "\<forall>n\<in>set (elts @ [ctx]). frames n \<le> k - 3"
    by (auto simp: fold_max_le)
  then have "frames ctx \<le> k - 3" by simp
  then have "4 \<le> k" using frames_pos [of ctx] Tuple.prems by simp
  moreover have "visit_each_lim (k - 3) (elts @ [ctx]) = visit_each (elts @ [ctx])"
    by (rule visit_each_lim_cong) (use c Tuple.IH in auto)
  ultimately show ?case by (simp add: visit_lim_generic visit_generic)
next
  case (Other c children)
  then show ?case by (simp add: visit_lim_Other visit_Other)
qed (simp_all add: visit_lim_generic visit_leaf visit_generic)

lemma visit_lim_value: "visit_lim k node = Inr v \<Longrightarrow> 3 * (depth node + 1) \<le> k"
proof (induction node arbitrary: k v)
  case (Expression body)
  have "3 \<le> k" using Expression.prems visit_lim_low [of k "Expression body"]
    by (auto simp: allowed_iff not_less [symmetric])
  then show ?case using Expression.prems Expression.IH [of "k - 3" v]
    by (simp add: visit_lim_Expression)
next
  case (BinOp left op right)
  have k: "3 \<le> k" using BinOp.prems visit_lim_low [of k "BinOp left op right"]
    by (auto simp: allowed_iff not_less [symmetric])
  then obtain l r where "visit_lim (k - 3) left = Inr l" "visit_lim (k - 3) right = Inr r"
    using BinOp.prems by (auto simp: visit_lim_BinOp split: sum.splits)
  then have "3 * (depth left + 1) \<le> k - 3" "3 * (depth right + 1) \<le> k - 3"
    using BinOp.IH(1,3) by simp_all
  then show ?case using k by (cases "depth left \<le> depth right") (simp_all add: max_def)
next
  case (UnaryOp op operand)
  have k: "3 \<le> k" using UnaryOp.prems visit_lim_low [of k "UnaryOp op operand"]
    by (auto simp: allowed_iff not_less [symmetric])
  then obtain w where "visit_lim (k - 3) operand = Inr w"
    using UnaryOp.prems by (auto simp: visit_lim_UnaryOp split: sum.splits)
  then have "3 * (depth operand + 1) \<le> k - 3"
    using UnaryOp.IH(2) by simp
  then show ?case using k by simp
next
  case (Constant c)
  have "3 \<le> k" using Constant.prems visit_lim_low [of k "Constant c"]
    by (auto simp: allowed_iff not_less [symmetric])
  then show ?case by simp
next
  case (Call func args kws)
  have k: "4 \<le> k"
    using Call.prems visit_lim_generic_low [where k = k and node = "Call func args kws"
        and func = func and args = args and kws = kws]
    by (auto simp: not_less [symmetric])
  then have "visit_each_lim (k - 3) (func # args @ kws) = Inr v"
    using Call.prems by (simp add: visit_lim_generic)
  then have a: "\<forall>n\<in>set (func # args @ kws). \<exists>w. visit_lim (k - 3) n = Inr w"
    by (rule visit_each_lim_Inr)
  have d: "3 * (depth n + 1) \<le> k - 3" if "n \<in> set (func # args @ kws)" for n
  proof -
    from a that obtain w where "visit_lim (k - 3) n = Inr w" by blast
    then show ?thesis
      using that Call.IH(1) [of "k - 3" w] Call.IH(2) [of n "k - 3" w]
        Call.IH(3) [of n "k - 3" w]
      by auto
  qed
  from d [of func] have k6: "6 \<le> k" by simp
  have "depth n \<le> (k - 6) div 3" if "n \<in> set (func # args @ kws)" for n
    using d [OF that] by simp
  then have "fold max (map depth (func # args @ kws)) 0 \<le> (k - 6) div 3"
    by (auto simp: fold_max_le)
  then show ?case using k6 by simp
next
  case (Name ident ctx)
  have k: "4 \<le> k"
    using Name.prems visit_lim_generic_low [where k = k and node = "Name ident ctx"
        and ident = ident and ctx = ctx]
    by (auto simp: not_less [symmetric])
  then show ?case by simp
next
  case (Tuple elts ctx)
  have k: "4 \<le> k"
    using Tuple.prems visit_lim_generic_low [where k = k and node = "Tuple elts ctx"
        and elts = elts and ctx = ctx]
    by (auto simp: not_less [symmetric])
  then have "visit_each_lim (k - 3) (elts @ [ctx]) = Inr v"
    using Tuple.prems by (simp add: visit_lim_generic)
  then have a: "\<forall>n\<in>set (elts @ [ctx]). \<exists>w. visit_lim (k - 3) n = Inr w"
    by (rule visit_each_lim_Inr)
  then have c: "3 * (depth ctx + 1) \<le> k - 3"
    using Tuple.IH(2) by auto
  from c have k6: "6 \<le> k" by simp
  have "depth n \<le> (k - 6) div 3" if "n \<in> set elts" for n
  proof -
    from a that obtain w where "visit_lim (k - 3) n = Inr w" by auto
    then have "3 * (depth n + 1) \<le> k - 3"
      using that Tuple.IH(1) [of n "k - 3" w] by simp
    then show ?thesis by simp
  qed
  then have "fold max (map depth elts) 0 \<le> (k - 6) div 3"
    by (auto simp: fold_max_le)
  then show ?case using k6 by simp
next
  case (Other c children)
  then show ?case by (cases k) (simp_all add: allowed_iff)
qed (use visit_lim_generic_low in \<open>auto simp: not_less [symmetric]\<close>)

lemma visit_lim_leaf:
  "visit_lim k Load = (if 4 \<le> k then Inr VNone else Inl RecursionError)"
  "visit_lim k Add = (if 4 \<le> k then Inr VNone else Inl RecursionError)"
  "visit_lim k Sub = (if 4 \<le> k then Inr VNone else Inl RecursionError)"
  "visit_lim k Mult = (if 4 \<le> k then Inr VNone else Inl RecursionError)"
  "visit_lim k Div = (if 4 \<le> k then Inr VNone else Inl RecursionError)"
  "visit_lim k Mod = (if 4 \<le> k then Inr VNone else Inl RecursionError)"
  "visit_lim k PowOp = (if 4 \<le> k then Inr VNone else Inl RecursionError)"
  "visit_lim k UAdd = (if 4 \<le> k then Inr VNone else Inl RecursionError)"
  "visit_lim k USub = (if 4 \<le> k then Inr VNone else Inl RecursionError)"
  using visit_lim_generic_low [where k = k] by (simp_all add: visit_lim_generic)

lemma visit_lim_error:
  "visit_lim k node = Inl e \<Longrightarrow> e = RecursionError \<or> e \<in> evaluator_errors"
proof (induction node arbitrary: k e)
  case (Expression body)
  show ?case
  proof (cases "3 \<le> k")
    case True
    then show ?thesis using Expression by (simp add: visit_lim_Expression)
  next
    case False
    then show ?thesis using Expression.prems visit_lim_low [of k "Expression body"]
      by (simp add: allowed_iff)
  qed
next
  case (BinOp left op right)
  show ?case
  proof (cases "3 \<le> k")
    case True
    have u: "ValueError ''Unsupported operator'' \<in> evaluator_errors"
      by (simp add: evaluator_errors_def)
    from BinOp.prems True show ?thesis
      using BinOp.IH(1) [of "k - 3"] BinOp.IH(3) [of "k - 3"] u host_errors
      by (auto simp: visit_lim_BinOp split: sum.splits if_splits dest!: binop_error)
  next
    case False
    then show ?thesis using BinOp.prems visit_lim_low [of k "BinOp left op right"]
      by (simp add: allowed_iff)
  qed
next
  case (UnaryOp op operand)
  show ?case
  proof (cases "3 \<le> k")
    case True
    from UnaryOp.prems True show ?thesis
      using UnaryOp.IH(2) [of "k - 3"]
      by (auto simp: visit_lim_UnaryOp evaluator_errors_def split: sum.splits if_splits
          dest!: unop_error)
  next
    case False
    then show ?thesis using UnaryOp.prems visit_lim_low [of k "UnaryOp op operand"]
      by (simp add: allowed_iff)
  qed
next
  case (Constant c)
  show ?case
  proof (cases "3 \<le> k")
    case True
    then show ?thesis using Constant
      by (auto simp: visit_lim_Constant evaluator_errors_def dest!: visit_Constant_error)
  next
    case False
    then show ?thesis using Constant visit_lim_low [of k "Constant c"]
      by (simp add: allowed_iff)
  qed
next
  case (Call func args kws)
  show ?case
  proof (cases "4 \<le> k")
    case True
    then have "visit_each_lim (k - 3) (func # args @ kws) = Inl e"
      using Call.prems by (simp add: visit_lim_generic)
    then obtain n where n: "n \<in> set (func # args @ kws)" "visit_lim (k - 3) n = Inl e"
      by (blast dest: visit_each_lim_Inl)
    then show ?thesis
      using Call.IH(1) [of "k - 3" e] Call.IH(2) [of n "k - 3" e] Call.IH(3) [of n "k - 3" e]
      by auto
  next
    case False
    then show ?thesis
      using Call.prems visit_lim_generic_low [where k = k and node = "Call func args kws"
          and func = func and args = args and kws = kws]
      by simp
  qed
next
  case (Name ident ctx)
  show ?case
  proof (cases "4 \<le> k")
    case True
    then show ?thesis using Name
      by (auto simp: visit_lim_generic split: sum.splits)
  next
    case False
    then show ?thesis
      using Name.prems visit_lim_generic_low [where k = k and node = "Name ident ctx"
          and ident = ident and ctx = ctx]
      by simp
  qed
next
  case (Tuple elts ctx)
  show ?case
  proof (cases "4 \<le> k")
    case True
    then have "visit_each_lim (k - 3) (elts @ [ctx]) = Inl e"
      using Tuple.prems by (simp add: visit_lim_generic)
    then obtain n where n: "n \<in> set (elts @ [ctx])" "visit_lim (k - 3) n = Inl e"
      by (blast dest: visit_each_lim_Inl)
    then show ?thesis
      using Tuple.IH(1) [of n "k - 3" e] Tuple.IH(2) [of "k - 3" e]
      by auto
  next
    case False
    then show ?thesis
      using Tuple.prems visit_lim_generic_low [where k = k and node = "Tuple elts ctx"
          and elts = elts and ctx = ctx]
      by simp
  qed
next
  case (Other c children)
  show ?case
  proof (cases "0 < k")
    case True
    then have "visit_lim k (Other c children)
                 = Inl (ValueError (''Disallowed expression: '' @ other_name c))"
      by (rule visit_lim_Other)
    then have "e = ValueError (''Disallowed expression: '' @ other_name c)"
      using Other.prems by simp
    then show ?thesis unfolding evaluator_errors_def by blast
  next
    case False
    then show ?thesis using Other.prems by simp
  qed
qed (simp_all add: visit_lim_leaf split: if_splits)

lemma visit_lim_nest:
  "visit_lim k (nest n (Constant (CInt i)))
     = (if 3 * (n + 1) \<le> k then Inr (VInt ((- 1) ^ n * i)) else Inl RecursionError)"
proof (induction n arbitrary: k)
  case 0
  then show ?case
    using visit_lim_low [of k "Constant (CInt i)"]
    by (simp add: visit_lim_Constant allowed_iff)
next
  case (Suc n)
  show ?case
  proof (cases "3 \<le> k")
    case True
    then show ?thesis using Suc [of "k - 3"]
      by (auto simp: visit_lim_UnaryOp)
  next
    case False
    then show ?thesis
      using visit_lim_low [of k "UnaryOp USub (nest n (Constant (CInt i)))"]
      by (simp add: allowed_iff)
  qed
qed

lemma depth_nest: "depth (nest n e) = n + depth e"
  by (induction n) simp_all

lemma frames_nest: "frames (nest n e) = 3 * n + frames e"
  by (induction n) simp_all


section \<open>Facts about the arithmetic of the host\<close>

lemma float_tiny_less: "float_tiny < 1 / 1024"
proof -
  have "(1024 :: real) = 2 ^ 10" by simp
  also have "\<dots> < 2 ^ 1075" by (rule power_strict_increasing) simp_all
  finally show ?thesis by (simp add: float_tiny_def field_simps)
qed

lemma float_limit_greater: "2 ^ 1023 < float_limit"
proof -
  have "(2 :: real) ^ 970 < 2 ^ 1023" by (rule power_strict_increasing) simp_all
  moreover have "(2 :: real) ^ 1024 = 2 * 2 ^ 1023" by simp
  ultimately show ?thesis by (simp add: float_limit_def)
qed

lemma underflow_eq: "1 / 1024 \<le> \<bar>x\<bar> \<Longrightarrow> underflow x = x"
  using float_tiny_less by (simp add: underflow_def)

lemma underflow_zero [simp]: "underflow 0 = 0"
  by (simp add: underflow_def)

lemma in_float_range: "\<bar>x\<bar> \<le> 2 ^ 1023 \<Longrightarrow> \<not> float_limit \<le> \<bar>x\<bar>"
  using float_limit_greater by simp








lemma coerce_real:
  assumes "real_value l = Some a" and "real_value r = Some b"
    and "\<bar>a\<bar> < float_limit" and "\<bar>b\<bar> < float_limit"
  shows "(\<exists>i j. coerce l r = Inr (Ints i j) \<and> a = of_int i \<and> b = of_int j)
       \<or> coerce l r = Inr (Floats a b)"
  using assms
  by (cases l; cases r) (auto simp: coerce_def int_to_float_def split: if_splits)

lemma real_value_not_complex: "real_value v = Some a \<Longrightarrow> \<not> is_complex v"
  by (cases v) simp_all

lemma truediv_real:
  assumes "real_value l = Some a" and "real_value r = Some b"
    and "\<bar>a\<bar> < float_limit" and "\<bar>b\<bar> < float_limit"
  shows "py_truediv l r = Inl ZeroDivisionError \<longleftrightarrow> b = 0"
    and "b \<noteq> 0 \<Longrightarrow> \<bar>a / b\<bar> < float_limit
           \<Longrightarrow> py_truediv l r = Inr (VFloat (underflow (a / b)))"
  using coerce_real [OF assms]
  by (auto simp: py_truediv_def float_result_def split: if_splits)

lemma mod_real:
  assumes "real_value l = Some a" and "real_value r = Some b"
    and "\<bar>a\<bar> < float_limit" and "\<bar>b\<bar> < float_limit"
  shows "py_mod l r = Inl ZeroDivisionError \<longleftrightarrow> b = 0"
    and "b \<noteq> 0 \<Longrightarrow> \<exists>v. py_mod l r = Inr v
                 \<and> real_value v = Some (a - b * of_int \<lfloor>a / b\<rfloor>)"
proof -
  have m: "real_of_int (i mod j) = of_int i - of_int j * of_int \<lfloor>real_of_int i / of_int j\<rfloor>"
    for i j :: int
    by (simp add: floor_divide_of_int_eq mod_div_mult_eq [symmetric] algebra_simps
        minus_mult_div_eq_mod [symmetric])
  have c: "\<not> is_complex l" "\<not> is_complex r"
    using assms(1,2) by (simp_all add: real_value_not_complex)
  show "py_mod l r = Inl ZeroDivisionError \<longleftrightarrow> b = 0"
    using coerce_real [OF assms] c by (auto simp: py_mod_def split: if_splits)
  show "\<exists>v. py_mod l r = Inr v \<and> real_value v = Some (a - b * of_int \<lfloor>a / b\<rfloor>)"
    if "b \<noteq> 0"
    using coerce_real [OF assms] c that m by (auto simp: py_mod_def)
qed

lemma big_int: "float_limit \<le> \<bar>real_of_int (10 ^ 400)\<bar>"
proof -
  have "float_limit \<le> 2 ^ 1024" by (simp add: float_limit_def)
  also have "(2 :: real) ^ 1024 \<le> 10 ^ 400" by simp
  finally show ?thesis by simp
qed

lemma float_result_type: "float_result x = Inr v \<Longrightarrow> is_float v"
  by (auto simp: float_result_def split: if_splits)

lemma complex_result_type: "complex_result z = Inr v \<Longrightarrow> is_complex v"
  by (auto simp: complex_result_def split: if_splits)

lemma complex_pow_type: "complex_pow z w = Inr v \<Longrightarrow> is_complex v"
  by (auto simp: complex_pow_def split: if_splits dest: complex_result_type)

lemma float_pow_type: "float_pow x y = Inr v \<Longrightarrow> is_float v \<or> is_complex v"
  by (auto simp: float_pow_def split: if_splits
      dest: complex_pow_type float_result_type)

lemma coerce_float:
  assumes "is_float l \<or> is_float r" and "coerce l r = Inr ops"
  shows "\<exists>x y. ops = Floats x y \<or> (\<exists>z w. ops = Complexes z w)"
  using assms
  by (cases l; cases r) (auto simp: coerce_def split: sum.splits)

lemma float_operand:
  assumes "is_float l \<or> is_float r"
  shows "py_add l r = Inr v \<Longrightarrow> is_float v \<or> is_complex v"
    and "py_sub l r = Inr v \<Longrightarrow> is_float v \<or> is_complex v"
    and "py_mul l r = Inr v \<Longrightarrow> is_float v \<or> is_complex v"
    and "py_mod l r = Inr v \<Longrightarrow> is_float v \<or> is_complex v"
    and "py_pow l r = Inr v \<Longrightarrow> is_float v \<or> is_complex v"
  using coerce_float [OF assms]
  by (auto simp: py_add_def py_sub_def py_mul_def py_mod_def py_pow_def
      split: sum.splits operands.splits if_splits
      dest: float_pow_type complex_pow_type)

lemma truediv_type: "py_truediv l r = Inr v \<Longrightarrow> is_float v \<or> is_complex v"
  by (auto simp: py_truediv_def split: sum.splits operands.splits if_splits
      dest: float_result_type)

lemma float_operands:
  "\<exists>y. py_add (VFloat a) (VFloat b) = Inr (VFloat y)"
  "\<exists>y. py_sub (VFloat a) (VFloat b) = Inr (VFloat y)"
  "\<exists>y. py_mul (VFloat a) (VFloat b) = Inr (VFloat y)"
  "b \<noteq> 0 \<Longrightarrow> \<exists>y. py_truediv (VFloat a) (VFloat b) = Inr (VFloat y)"
  "b \<noteq> 0 \<Longrightarrow> \<exists>y. py_mod (VFloat a) (VFloat b) = Inr (VFloat y)"
  by (simp_all add: py_add_def py_sub_def py_mul_def py_truediv_def py_mod_def coerce_def)

lemma binop_float_type:
  assumes "visit left = Inr l" and "visit right = Inr r"
    and "is_float l \<or> is_float r \<or> op = Div"
    and "visit (BinOp left op right) = Inr v"
  shows "is_float v \<or> is_complex v"
proof (cases "op = Div")
  case True
  then show ?thesis using assms(1,2,4) truediv_type [of l r v]
    by (simp add: visit_BinOp_eq)
next
  case False
  then have f: "is_float l \<or> is_float r" using assms(3) by simp
  show ?thesis
    using assms(1,2,4) False float_operand [OF f, of v]
    by (auto simp: visit_BinOp_eq split: if_splits)
qed

lemma binop_floats:
  assumes "visit left = Inr (VFloat a)" and "visit right = Inr (VFloat b)"
    and "op = Add \<or> op = Sub \<or> op = Mult \<or> ((op = Div \<or> op = Mod) \<and> b \<noteq> 0)"
  shows "\<exists>y. visit (BinOp left op right) = Inr (VFloat y)"
  using assms float_operands [where a = a and b = b]
  by (auto simp: visit_BinOp_eq)

lemma int_quotient:
  assumes "visit left = Inr (VInt i)" and "visit right = Inr (VInt j)"
    and "j \<noteq> 0" and "\<bar>real_of_int i / of_int j\<bar> < float_limit"
  shows "visit (BinOp left Div right) = Inr (VFloat (underflow (of_int i / of_int j)))"
  using assms by (simp add: visit_BinOp_eq py_truediv_def coerce_def float_result_def)

lemma early_error:
  "11 \<le> k \<Longrightarrow>
   visit_lim k (BinOp (BinOp (Constant (CInt 1)) Div (Constant (CInt 0))) Add
                  (nest d (Constant (CInt 1))))
     = Inl ZeroDivisionError"
  by (simp add: visit_lim_BinOp visit_lim_Constant py_truediv_def coerce_def)


section \<open>Properties\<close>

lemma strip_literals:
  "strip '''' = ''''" "strip ''   '' = ''''"
  "strip ''2+3*4'' = ''2+3*4''" "strip ''2**3**2'' = ''2**3**2''"
  "strip ''-3+4'' = ''-3+4''" "strip ''-(3+4)'' = ''-(3+4)''"
  "strip ''4/2'' = ''4/2''" "strip ''5/0'' = ''5/0''" "strip ''5%0'' = ''5%0''"
  "strip ''7/2'' = ''7/2''" "strip ''abs(4)'' = ''abs(4)''" "strip ''f(x.y)'' = ''f(x.y)''"
  "strip ''True'' = ''True''" "strip ''(-8)**0.5'' = ''(-8)**0.5''"
  "strip ''7%2'' = ''7%2''" "strip ''7//2'' = ''7//2''" "strip ''~1'' = ''~1''"
  "strip ''x/0'' = ''x/0''"
  by (simp_all add: strip_def isspace_def)

lemma py_parse_examples:
  "py_parse ''2+3*4'' =
     Inr (Expression (BinOp (Constant (CInt 2)) Add
            (BinOp (Constant (CInt 3)) Mult (Constant (CInt 4)))))"
  "py_parse ''2**3**2'' =
     Inr (Expression (BinOp (Constant (CInt 2)) PowOp
            (BinOp (Constant (CInt 3)) PowOp (Constant (CInt 2)))))"
  "py_parse ''-3+4'' =
     Inr (Expression (BinOp (UnaryOp USub (Constant (CInt 3))) Add (Constant (CInt 4))))"
  "py_parse ''-(3+4)'' =
     Inr (Expression (UnaryOp USub (BinOp (Constant (CInt 3)) Add (Constant (CInt 4)))))"
  "py_parse ''4/2'' = Inr (Expression (BinOp (Constant (CInt 4)) Div (Constant (CInt 2))))"
  "py_parse ''5/0'' = Inr (Expression (BinOp (Constant (CInt 5)) Div (Constant (CInt 0))))"
  "py_parse ''5%0'' = Inr (Expression (BinOp (Constant (CInt 5)) Mod (Constant (CInt 0))))"
  "py_parse ''7/2'' = Inr (Expression (BinOp (Constant (CInt 7)) Div (Constant (CInt 2))))"
  "py_parse ''7%2'' = Inr (Expression (BinOp (Constant (CInt 7)) Mod (Constant (CInt 2))))"
  "py_parse ''abs(4)'' = Inr (Expression (Call (Name ''abs'' Load) [Constant (CInt 4)] []))"
  "py_parse ''f(x.y)'' =
     Inr (Expression (Call (Name ''f'' Load) [Other Attribute [Name ''x'' Load, Load]] []))"
  "py_parse ''True'' = Inr (Expression (Constant (CBool True)))"
  "py_parse ''(-8)**0.5'' =
     Inr (Expression (BinOp (UnaryOp USub (Constant (CInt 8))) PowOp
            (Constant (CFloat (1 / 2)))))"
  "py_parse ''7//2'' =
     Inr (Expression (BinOp (Constant (CInt 7)) (Other FloorDiv []) (Constant (CInt 2))))"
  "py_parse ''~1'' = Inr (Expression (UnaryOp (Other Invert []) (Constant (CInt 1))))"
  "py_parse ''x/0'' = Inr (Expression (BinOp (Name ''x'' Load) Div (Constant (CInt 0))))"
  by code_simp+

lemma safe_eval_parsed:
  "strip expr \<noteq> [] \<Longrightarrow> ast_parse (strip expr) = Inr node
    \<Longrightarrow> safe_eval ast_parse expr = visit node"
  by (simp add: safe_eval_def)

lemma allowed_not_rejected:
  assumes "isinstance node ALLOWED_NODES"
  shows "visit node \<noteq> Inl (ValueError (''Disallowed expression: '' @ class_name node))"
proof -
  have a: "class_name node \<in> set ALLOWED_NODES"
    using assms by (simp add: isinstance_def)
  have "ValueError (''Disallowed expression: '' @ class_name node) \<notin> evaluator_errors"
  proof
    assume "ValueError (''Disallowed expression: '' @ class_name node) \<in> evaluator_errors"
    then obtain c where "class_name node = other_name c"
      by (auto simp: evaluator_errors_def)
    with a other_name_not_allowed [of c] show False by simp
  qed
  then show ?thesis using visit_error by blast
qed

lemma generic_top:
  assumes "isinstance tnode [''Call'', ''Name'', ''Tuple'']"
  shows "visit tnode = visit_each (child_nodes tnode)"
proof (cases tnode)
  case (Other c ns)
  then show ?thesis
    using assms other_name_not_allowed [of c]
    by (auto simp: isinstance_def ALLOWED_NODES_def)
qed (use assms in \<open>simp_all add: isinstance_def visit_generic\<close>)


text \<open>
  C1, as stated, fails. It says that \<^verbatim>\<open>visit\<close> fails with a disallowed-construct error
  on every node outside numeric literals, unary plus and minus and the six binary
  operators, in particular on function calls, name references and tuples. But
  \<^verbatim>\<open>ALLOWED_NODES\<close> lists \<^verbatim>\<open>Call\<close>, \<^verbatim>\<open>Name\<close> and \<^verbatim>\<open>Tuple\<close>: a name, the call \<^verbatim>\<open>abs(4)\<close> and
  the tuple \<^verbatim>\<open>(1, 2)\<close> pass the check, go to \<^verbatim>\<open>generic_visit\<close>, and \<^verbatim>\<open>visit\<close> returns
  \<^verbatim>\<open>None\<close> without an error.
\<close>
theorem visit_allows_call_name_tuple:
  "visit (Name ''x'' Load) = Inr VNone
   \<and> visit (Call (Name ''abs'' Load) [Constant (CInt 4)] []) = Inr VNone
   \<and> visit (Tuple [Constant (CInt 1), Constant (CInt 2)] Load) = Inr VNone"
  by (simp add: visit_eqs)


text \<open>
  C1, amended: apart from function calls, name references and tuples, which
  \<^verbatim>\<open>ALLOWED_NODES\<close> lists, \<^verbatim>\<open>visit\<close> fails on the nodes outside the arithmetic set and
  returns no value. A node of a class outside \<^verbatim>\<open>ALLOWED_NODES\<close> fails with
  \<^verbatim>\<open>ValueError("Disallowed expression: <class>")\<close>, and only such a node fails with that
  error for its own class. A \<^verbatim>\<open>BinOp\<close> whose operator is not one of the six fails with
  \<^verbatim>\<open>ValueError("Unsupported operator")\<close> and a \<^verbatim>\<open>UnaryOp\<close> whose operator is not one of
  the two with \<^verbatim>\<open>ValueError("Unsupported unary operator")\<close>; the operands are visited
  first, and an error of theirs is the one that is raised. A literal that is a string,
  bytes, a complex number, \<^verbatim>\<open>None\<close> or the ellipsis fails with
  \<^verbatim>\<open>ValueError("Only numeric constants are allowed")\<close>.
\<close>
theorem visit_rejects_outside_allowed:
  "(visit node = Inl (ValueError (''Disallowed expression: '' @ class_name node))
      \<longleftrightarrow> \<not> isinstance node ALLOWED_NODES)
   \<and> (\<not> isinstance node ALLOWED_NODES \<longrightarrow> (\<exists>c ns. node = Other c ns))
   \<and> visit (Other c ns) = Inl (ValueError (''Disallowed expression: '' @ other_name c))
   \<and> (op \<notin> {Add, Sub, Mult, Div, Mod, PowOp}
        \<longrightarrow> visit (BinOp left op right)
              = (case visit left of
                   Inl e \<Rightarrow> Inl e
                 | Inr l \<Rightarrow>
                     (case visit right of
                        Inl e \<Rightarrow> Inl e
                      | Inr r \<Rightarrow> Inl (ValueError ''Unsupported operator'')))
            \<and> (\<exists>e. visit (BinOp left op right) = Inl e))
   \<and> (uop \<notin> {UAdd, USub}
        \<longrightarrow> visit (UnaryOp uop operand)
              = (case visit operand of
                   Inl e \<Rightarrow> Inl e
                 | Inr v \<Rightarrow> Inl (ValueError ''Unsupported unary operator''))
            \<and> (\<exists>e. visit (UnaryOp uop operand) = Inl e))
   \<and> visit (Constant (CStr s)) = Inl (ValueError ''Only numeric constants are allowed'')
   \<and> visit (Constant (CBytes s)) = Inl (ValueError ''Only numeric constants are allowed'')
   \<and> visit (Constant (CComplex z)) = Inl (ValueError ''Only numeric constants are allowed'')
   \<and> visit (Constant CNone) = Inl (ValueError ''Only numeric constants are allowed'')
   \<and> visit (Constant CEllipsis) = Inl (ValueError ''Only numeric constants are allowed'')
   \<and> isinstance (Call func args kws) ALLOWED_NODES
   \<and> isinstance (Name ident ctx) ALLOWED_NODES
   \<and> isinstance (Tuple elts ctx) ALLOWED_NODES"
proof -
  have a: "visit node = Inl (ValueError (''Disallowed expression: '' @ class_name node))
          \<longleftrightarrow> \<not> isinstance node ALLOWED_NODES"
    using allowed_not_rejected [of node] by (auto simp: visit.simps(1))
  have b: "visit (BinOp left op right)
             = (case visit left of
                  Inl e \<Rightarrow> Inl e
                | Inr l \<Rightarrow>
                    (case visit right of
                       Inl e \<Rightarrow> Inl e
                     | Inr r \<Rightarrow> Inl (ValueError ''Unsupported operator'')))
           \<and> (\<exists>e. visit (BinOp left op right) = Inl e)"
    if "op \<notin> {Add, Sub, Mult, Div, Mod, PowOp}"
    using that by (simp add: visit_BinOp_eq split: sum.splits)
  have u: "visit (UnaryOp uop operand)
             = (case visit operand of
                  Inl e \<Rightarrow> Inl e
                | Inr v \<Rightarrow> Inl (ValueError ''Unsupported unary operator''))
           \<and> (\<exists>e. visit (UnaryOp uop operand) = Inl e)"
    if "uop \<notin> {UAdd, USub}"
    using that by (simp add: visit_UnaryOp_eq split: sum.splits)
  have c: "visit (Constant (CStr s)) = Inl (ValueError ''Only numeric constants are allowed'')"
    "visit (Constant (CBytes s)) = Inl (ValueError ''Only numeric constants are allowed'')"
    "visit (Constant (CComplex z)) = Inl (ValueError ''Only numeric constants are allowed'')"
    "visit (Constant CNone) = Inl (ValueError ''Only numeric constants are allowed'')"
    "visit (Constant CEllipsis) = Inl (ValueError ''Only numeric constants are allowed'')"
    by (simp_all add: visit_Constant_eq)
  have d: "\<not> isinstance node ALLOWED_NODES \<longrightarrow> (\<exists>c ns. node = Other c ns)"
    "isinstance (Call func args kws) ALLOWED_NODES"
    "isinstance (Name ident ctx) ALLOWED_NODES"
    "isinstance (Tuple elts ctx) ALLOWED_NODES"
    by (simp_all add: allowed_iff)
  from a b u c d visit_Other [of c ns] show ?thesis by blast
qed

theorem visit_rejects_outside_allowed_witness:
  "\<not> isinstance (Other Attribute [Name ''x'' Load, Load]) ALLOWED_NODES
   \<and> visit (Other Attribute [Name ''x'' Load, Load])
       = Inl (ValueError ''Disallowed expression: Attribute'')
   \<and> Other FloorDiv [] \<notin> {Add, Sub, Mult, Div, Mod, PowOp}
   \<and> visit (BinOp (Constant (CInt 7)) (Other FloorDiv []) (Constant (CInt 2)))
       = Inl (ValueError ''Unsupported operator'')
   \<and> safe_eval py_parse ''7//2'' = Inl (ValueError ''Unsupported operator'')
   \<and> Other Invert [] \<notin> {UAdd, USub}
   \<and> visit (UnaryOp (Other Invert []) (Constant (CInt 1)))
       = Inl (ValueError ''Unsupported unary operator'')
   \<and> safe_eval py_parse ''~1'' = Inl (ValueError ''Unsupported unary operator'')"
  using visit_rejects_outside_allowed [of "Other Attribute [Name ''x'' Load, Load]"
      Attribute "[Name ''x'' Load, Load]" "Other FloorDiv []" "Constant (CInt 7)"
      "Constant (CInt 2)" "Other Invert []" "Constant (CInt 1)"]
  by (simp add: allowed_iff visit_Constant_eq safe_eval_def strip_literals
      py_parse_examples visit_Expression_eq)


text \<open>
  C2 says that \<^verbatim>\<open>visit_Constant\<close> fails for every boolean constant. The test
  \<^verbatim>\<open>isinstance(node.value, (int, float))\<close> lets a \<^verbatim>\<open>bool\<close> through, since \<^verbatim>\<open>bool\<close> is a
  subclass of \<^verbatim>\<open>int\<close>: on the input \<^verbatim>\<open>True\<close> the evaluator returns the boolean \<^verbatim>\<open>True\<close>,
  where the message of the error it has for this case reads "Only numeric constants are
  allowed".
\<close>
theorem visit_Constant_accepts_bool:
  "visit_Constant (Constant (CBool True)) = Inr (VBool True)
   \<and> visit (Constant (CBool True)) = Inr (VBool True)
   \<and> safe_eval py_parse ''True'' = Inr (VBool True)"
  by (simp add: safe_eval_def strip_literals py_parse_examples visit_eqs)







text \<open>
  C4, as stated, fails. It says that there is a configured maximum nesting depth, such as
  100, beyond which every evaluation fails with a too-deeply-nested error. The code has
  no depth check and no such error; the one bound is the recursion limit of the host,
  whose \<^verbatim>\<open>RecursionError\<close> is raised where the stack runs out, not where the tree is
  deep. Whatever number of nested calls the host admits, from 11 on, no depth is one
  beyond which every tree fails with \<^verbatim>\<open>RecursionError\<close>: a sum whose left operand is
  \<^verbatim>\<open>1/0\<close> fails with \<^verbatim>\<open>ZeroDivisionError\<close>, however deep its right operand is. And
  with the 1000 calls of the default limit, the literal 1 below 101 minus signs, of
  depth 101, evaluates to -1.
\<close>
theorem visit_no_depth_error:
  "\<not> (\<exists>k d. 11 \<le> k
         \<and> (\<forall>node. d < depth node \<longrightarrow> visit_lim k node = Inl RecursionError))
   \<and> depth (nest 101 (Constant (CInt 1))) = 101
   \<and> visit_lim 1000 (nest 101 (Constant (CInt 1))) = Inr (VInt (- 1))"
proof -
  have "\<exists>node. d < depth node \<and> visit_lim k node \<noteq> Inl RecursionError"
    if "11 \<le> k" for k d
  proof -
    let ?node = "BinOp (BinOp (Constant (CInt 1)) Div (Constant (CInt 0))) Add
                   (nest d (Constant (CInt 1)))"
    have "d < depth ?node" by (simp add: depth_nest)
    moreover have "visit_lim k ?node \<noteq> Inl RecursionError"
      using that by (simp add: early_error)
    ultimately show ?thesis by blast
  qed
  then have "\<not> (\<exists>k d. 11 \<le> k
         \<and> (\<forall>node. d < depth node \<longrightarrow> visit_lim k node = Inl RecursionError))"
    by blast
  then show ?thesis by (simp add: depth_nest visit_lim_nest)
qed


text \<open>
  C4, amended: the bound on the nesting depth is the recursion limit of the host, and
  the failure is an exception, not a crash. \<^verbatim>\<open>visit\<close> takes three frames for each level
  of nesting. When the host admits \<open>k\<close> more nested calls, the visit of every tree of
  depth \<open>d\<close> with \<open>k < 3 * (d + 1)\<close> fails and returns no value: with
  \<^verbatim>\<open>RecursionError\<close>, or with the error of a part of the tree that is visited before the
  stack runs out. Every tree that needs no more than \<open>k\<close> frames, with two to spare, is
  evaluated as on a stack without a limit. On \<open>n\<close> minus signs above an \<^verbatim>\<open>int\<close>
  literal the outcome is \<^verbatim>\<open>RecursionError\<close> when \<open>k < 3 * (n + 1)\<close>, and the value when
  \<open>k\<close> is \<open>3 * (n + 1) + 2\<close> or more.
\<close>
theorem visit_depth_limit:
  "(k < 3 * (depth node + 1)
      \<longrightarrow> (\<exists>e. visit_lim k node = Inl e \<and> (e = RecursionError \<or> e \<in> evaluator_errors)))
   \<and> (frames node + 2 \<le> k \<longrightarrow> visit_lim k node = visit node)
   \<and> (k < 3 * (n + 1)
        \<longrightarrow> visit_lim k (nest n (Constant (CInt i))) = Inl RecursionError)
   \<and> (3 * (n + 1) + 2 \<le> k
        \<longrightarrow> visit_lim k (nest n (Constant (CInt i))) = Inr (VInt ((- 1) ^ n * i)))"
proof -
  have "\<exists>e. visit_lim k node = Inl e \<and> (e = RecursionError \<or> e \<in> evaluator_errors)"
    if "k < 3 * (depth node + 1)"
  proof (cases "visit_lim k node")
    case (Inl e)
    then show ?thesis using visit_lim_error [of k node e] by simp
  next
    case (Inr v)
    then show ?thesis using visit_lim_value [of k node v] that by simp
  qed
  then show ?thesis by (simp add: visit_lim_enough visit_lim_nest)
qed

theorem visit_depth_limit_witness:
  "1000 < 3 * (depth (nest 400 (Constant (CInt 1))) + 1)
   \<and> visit_lim 1000 (nest 400 (Constant (CInt 1))) = Inl RecursionError
   \<and> frames (nest 101 (Constant (CInt 1))) + 2 \<le> 1000
   \<and> visit_lim 1000 (nest 101 (Constant (CInt 1))) = visit (nest 101 (Constant (CInt 1)))
   \<and> visit_lim 1000 (nest 101 (Constant (CInt 1))) = Inr (VInt (- 1))"
  using visit_depth_limit [of 1000 "nest 400 (Constant (CInt 1))" 400 1]
    visit_depth_limit [of 1000 "nest 101 (Constant (CInt 1))" 101 1]
  by (auto simp: depth_nest frames_nest)


text \<open>
  C5: precedence and associativity. The tree is built by the parser of the host; on the
  trees that the grammar of the language gives for \<^verbatim>\<open>2+3*4\<close> (the product below the
  sum) and for \<^verbatim>\<open>2**3**2\<close> (the right power below the left one), \<^verbatim>\<open>safe_eval\<close> returns 14
  and 512.
\<close>
theorem safe_eval_precedence:
  assumes "ast_parse ''2+3*4'' =
             Inr (Expression (BinOp (Constant (CInt 2)) Add
                    (BinOp (Constant (CInt 3)) Mult (Constant (CInt 4)))))"
    and "ast_parse ''2**3**2'' =
             Inr (Expression (BinOp (Constant (CInt 2)) PowOp
                    (BinOp (Constant (CInt 3)) PowOp (Constant (CInt 2)))))"
  shows "safe_eval ast_parse ''2+3*4'' = Inr (VInt 14)
       \<and> safe_eval ast_parse ''2**3**2'' = Inr (VInt 512)"
  using assms
  by (simp add: safe_eval_def strip_literals visit_eqs py_add_def py_mul_def py_pow_def
      coerce_def)

theorem safe_eval_precedence_witness:
  "safe_eval py_parse ''2+3*4'' = Inr (VInt 14)
   \<and> safe_eval py_parse ''2**3**2'' = Inr (VInt 512)"
  using safe_eval_precedence [of py_parse] by (simp add: py_parse_examples)


text \<open>
  C6, as stated, fails. It says that, for every pair of evaluated operands, division and
  modulo fail with a division-by-zero error exactly when the right operand is zero, and
  return the quotient or the remainder otherwise. A name evaluates to \<^verbatim>\<open>None\<close>, and
  \<^verbatim>\<open>x/0\<close> and \<^verbatim>\<open>x%0\<close> fail with \<^verbatim>\<open>TypeError\<close>, with a right operand that is zero. An
  \<^verbatim>\<open>int\<close> out of the range of a \<^verbatim>\<open>float\<close> makes the division fail with
  \<^verbatim>\<open>OverflowError\<close>, by \<^verbatim>\<open>0.0\<close> as by 1.
\<close>
theorem division_type_error:
  "visit (Constant (CInt 0)) = Inr (VInt 0)
   \<and> visit (BinOp (Name ''x'' Load) Div (Constant (CInt 0))) = Inl TypeError
   \<and> visit (BinOp (Name ''x'' Load) Mod (Constant (CInt 0))) = Inl TypeError
   \<and> safe_eval py_parse ''x/0'' = Inl TypeError
   \<and> visit (BinOp (Constant (CInt (10 ^ 400))) Div (Constant (CFloat 0))) = Inl OverflowError
   \<and> visit (BinOp (Constant (CInt (10 ^ 400))) Div (Constant (CInt 1))) = Inl OverflowError"
  using big_int
  by (simp add: safe_eval_def strip_literals py_parse_examples visit_eqs py_truediv_def
      py_mod_def coerce_def int_to_float_def float_result_def)


text \<open>
  C6, amended: division and modulo by zero, for operands that are numbers in the range
  of a \<^verbatim>\<open>float\<close>. For an expression whose tree is a \<^verbatim>\<open>BinOp\<close> with \<^verbatim>\<open>Div\<close> or \<^verbatim>\<open>Mod\<close> and
  whose operands evaluate to numbers \<open>a\<close> and \<open>b\<close> (\<^verbatim>\<open>int\<close> or \<^verbatim>\<open>float\<close>, a \<^verbatim>\<open>bool\<close>
  counting as the \<^verbatim>\<open>int\<close> it is) of magnitude below \<open>float_limit\<close>, \<^verbatim>\<open>safe_eval\<close> fails
  with \<^verbatim>\<open>ZeroDivisionError\<close> exactly when \<open>b\<close> is zero. Otherwise \<^verbatim>\<open>Div\<close> returns the
  \<^verbatim>\<open>float\<close> \<open>a / b\<close> when the quotient is in the range of a \<^verbatim>\<open>float\<close> (zero when it
  is too small for one), and \<^verbatim>\<open>Mod\<close> returns the remainder \<open>a - b * \<lfloor>a / b\<rfloor>\<close>, which
  has the sign of \<open>b\<close>.
\<close>
theorem division_by_zero:
  assumes "strip expr \<noteq> []"
    and "ast_parse (strip expr) = Inr (Expression (BinOp left op right))"
    and "visit left = Inr l" and "visit right = Inr r"
    and "real_value l = Some a" and "real_value r = Some b"
    and "\<bar>a\<bar> < float_limit" and "\<bar>b\<bar> < float_limit"
  shows "(op = Div \<or> op = Mod
            \<longrightarrow> (safe_eval ast_parse expr = Inl ZeroDivisionError \<longleftrightarrow> b = 0))
       \<and> (op = Div \<and> b \<noteq> 0 \<and> \<bar>a / b\<bar> < float_limit
            \<longrightarrow> safe_eval ast_parse expr = Inr (VFloat (underflow (a / b))))
       \<and> (op = Mod \<and> b \<noteq> 0
            \<longrightarrow> (\<exists>v. safe_eval ast_parse expr = Inr v
                     \<and> real_value v = Some (a - b * of_int \<lfloor>a / b\<rfloor>)))"
proof -
  have s: "safe_eval ast_parse expr = visit (BinOp left op right)"
    using assms(1,2) by (simp add: safe_eval_def visit_Expression_eq)
  have d: "visit (BinOp left Div right) = py_truediv l r"
    and m: "visit (BinOp left Mod right) = py_mod l r"
    using assms(3,4) by (simp_all add: visit_BinOp_eq)
  show ?thesis
    using truediv_real [OF assms(5-8)] mod_real [OF assms(5-8)]
    by (auto simp: s d m)
qed

theorem division_by_zero_witness:
  "safe_eval py_parse ''5/0'' = Inl ZeroDivisionError
   \<and> safe_eval py_parse ''5%0'' = Inl ZeroDivisionError
   \<and> safe_eval py_parse ''7/2'' = Inr (VFloat (7 / 2))
   \<and> safe_eval py_parse ''7%2'' = Inr (VInt 1)
   \<and> (\<exists>v. safe_eval py_parse ''7%2'' = Inr v \<and> real_value v = Some 1)"
proof -
  have c: "visit (Constant (CInt k)) = Inr (VInt k)" for k
    by (simp add: visit_eqs)
  have r: "real_value (VInt k) = Some (of_int k)" for k by simp
  have b: "\<bar>real_of_int 0\<bar> < float_limit" "\<bar>real_of_int 2\<bar> < float_limit"
    "\<bar>real_of_int 5\<bar> < float_limit" "\<bar>real_of_int 7\<bar> < float_limit"
    "\<bar>7 / 2 :: real\<bar> < float_limit"
    using in_float_range [of 0] in_float_range [of 2] in_float_range [of 5]
      in_float_range [of 7] in_float_range [of "7 / 2"]
    by simp_all
  have u: "underflow (7 / 2) = 7 / 2"
    using underflow_eq [of "7 / 2"] by simp
  have "safe_eval py_parse ''5/0'' = Inl ZeroDivisionError"
    using division_by_zero [of "''5/0''" py_parse "Constant (CInt 5)" Div
        "Constant (CInt 0)", OF _ _ c c r r] b
    by (simp add: strip_literals py_parse_examples)
  moreover have "safe_eval py_parse ''5%0'' = Inl ZeroDivisionError"
    using division_by_zero [of "''5%0''" py_parse "Constant (CInt 5)" Mod
        "Constant (CInt 0)", OF _ _ c c r r] b
    by (simp add: strip_literals py_parse_examples)
  moreover have "safe_eval py_parse ''7/2'' = Inr (VFloat (7 / 2))"
    using division_by_zero [of "''7/2''" py_parse "Constant (CInt 7)" Div
        "Constant (CInt 2)", OF _ _ c c r r] b u
    by (simp add: strip_literals py_parse_examples)
  moreover have "\<exists>v. safe_eval py_parse ''7%2'' = Inr v \<and> real_value v = Some 1"
    using division_by_zero [of "''7%2''" py_parse "Constant (CInt 7)" Mod
        "Constant (CInt 2)", OF _ _ c c r r] b
    by (simp add: strip_literals py_parse_examples)
  moreover have "safe_eval py_parse ''7%2'' = Inr (VInt 1)"
    by (simp add: safe_eval_def strip_literals py_parse_examples visit_eqs py_mod_def
        coerce_def)
  ultimately show ?thesis by blast
qed


text \<open>
  C7: \<^verbatim>\<open>safe_eval\<close> fails with \<^verbatim>\<open>ValueError("Empty expression")\<close> exactly when the input
  is empty or consists of whitespace only; in particular on the empty string and on
  three spaces. The parser of the host raises errors of its own, never this one.
\<close>
theorem safe_eval_empty:
  assumes "\<And>t. ast_parse t \<noteq> Inl (ValueError ''Empty expression'')"
  shows "(safe_eval ast_parse expr = Inl (ValueError ''Empty expression'')
           \<longleftrightarrow> (\<forall>c\<in>set expr. isspace c))
       \<and> safe_eval ast_parse '''' = Inl (ValueError ''Empty expression'')
       \<and> safe_eval ast_parse ''   '' = Inl (ValueError ''Empty expression'')"
proof -
  have no: "visit node \<noteq> Inl (ValueError ''Empty expression'')" for node
    using visit_error [of node "ValueError ''Empty expression''"]
    by (auto simp: evaluator_errors_def)
  have "safe_eval ast_parse expr = Inl (ValueError ''Empty expression'')
          \<longleftrightarrow> strip expr = []"
    using assms [of "strip expr"] no
    by (auto simp: safe_eval_def Let_def split: sum.splits)
  then show ?thesis
    by (simp add: strip_empty_iff) (simp add: safe_eval_def strip_literals)
qed

theorem safe_eval_empty_witness:
  "(\<forall>t. py_parse t \<noteq> Inl (ValueError ''Empty expression''))
   \<and> safe_eval py_parse '''' = Inl (ValueError ''Empty expression'')
   \<and> safe_eval py_parse ''   '' = Inl (ValueError ''Empty expression'')
   \<and> safe_eval py_parse ''2+3*4'' \<noteq> Inl (ValueError ''Empty expression'')"
proof -
  have p: "py_parse t \<noteq> Inl (ValueError ''Empty expression'')" for t
    by (simp add: py_parse_def split: option.splits prod.splits)
  have "\<not> (\<forall>c\<in>set ''2+3*4''. isspace c)" by (simp add: isspace_def)
  with safe_eval_empty [of py_parse "''2+3*4''", OF p] p show ?thesis by simp
qed


text \<open>
  C8: for every operand node \<open>x\<close>, \<^verbatim>\<open>UnaryOp(UAdd, x)\<close> evaluates to plus the value of
  \<open>x\<close> and \<^verbatim>\<open>UnaryOp(USub, x)\<close> to minus the value of \<open>x\<close> (an error of \<open>x\<close> is passed
  on); on the trees of \<^verbatim>\<open>-3+4\<close> and \<^verbatim>\<open>-(3+4)\<close>, \<^verbatim>\<open>safe_eval\<close> returns 1 and -7.
\<close>
theorem visit_unary:
  assumes "ast_parse ''-3+4'' =
             Inr (Expression (BinOp (UnaryOp USub (Constant (CInt 3))) Add
                    (Constant (CInt 4))))"
    and "ast_parse ''-(3+4)'' =
             Inr (Expression (UnaryOp USub
                    (BinOp (Constant (CInt 3)) Add (Constant (CInt 4)))))"
  shows "visit (UnaryOp UAdd x) = (case visit x of Inl e \<Rightarrow> Inl e | Inr v \<Rightarrow> py_pos v)
       \<and> visit (UnaryOp USub x) = (case visit x of Inl e \<Rightarrow> Inl e | Inr v \<Rightarrow> py_neg v)
       \<and> (visit x = Inr (VInt i)
            \<longrightarrow> visit (UnaryOp UAdd x) = Inr (VInt i)
              \<and> visit (UnaryOp USub x) = Inr (VInt (- i)))
       \<and> (visit x = Inr (VFloat r)
            \<longrightarrow> visit (UnaryOp UAdd x) = Inr (VFloat r)
              \<and> visit (UnaryOp USub x) = Inr (VFloat (- r)))
       \<and> safe_eval ast_parse ''-3+4'' = Inr (VInt 1)
       \<and> safe_eval ast_parse ''-(3+4)'' = Inr (VInt (- 7))"
  using assms
  by (simp add: safe_eval_def strip_literals visit_eqs py_add_def coerce_def
      cong: sum.case_cong)

theorem visit_unary_witness:
  "visit (Constant (CInt 3)) = Inr (VInt 3)
   \<and> visit (UnaryOp UAdd (Constant (CInt 3))) = Inr (VInt 3)
   \<and> visit (UnaryOp USub (Constant (CInt 3))) = Inr (VInt (- 3))
   \<and> visit (Constant (CFloat (1 / 2))) = Inr (VFloat (1 / 2))
   \<and> visit (UnaryOp USub (Constant (CFloat (1 / 2)))) = Inr (VFloat (- (1 / 2)))
   \<and> safe_eval py_parse ''-3+4'' = Inr (VInt 1)
   \<and> safe_eval py_parse ''-(3+4)'' = Inr (VInt (- 7))"
  using visit_unary [of py_parse "Constant (CInt 3)" 3 "1 / 2"]
    visit_unary [of py_parse "Constant (CFloat (1 / 2))" 3 "1 / 2"]
  by (simp add: py_parse_examples visit_Constant_eq)


text \<open>
  C9: no normalization in the evaluator. \<^verbatim>\<open>safe_eval\<close> returns what \<^verbatim>\<open>visit\<close> returns
  for the tree of the input, and \<^verbatim>\<open>visit\<close> turns no \<^verbatim>\<open>float\<close> into an \<^verbatim>\<open>int\<close>: a
  \<^verbatim>\<open>float\<close> literal evaluates to itself; plus and minus of a \<^verbatim>\<open>float\<close> are \<^verbatim>\<open>float\<close>s;
  a binary operation with a \<^verbatim>\<open>float\<close> operand, and every division, returns a \<^verbatim>\<open>float\<close>
  or a \<^verbatim>\<open>complex\<close> object when it returns; on two \<^verbatim>\<open>float\<close>s, the sum, the difference,
  the product and, for a divisor that is not zero, the quotient and the remainder are
  \<^verbatim>\<open>float\<close>s; the quotient of two \<^verbatim>\<open>int\<close>s is a \<^verbatim>\<open>float\<close> also when it is a whole
  number, as for \<^verbatim>\<open>4/2\<close>. When the tree evaluates to a \<^verbatim>\<open>float\<close> without a fractional
  part, \<^verbatim>\<open>safe_eval\<close> returns that \<^verbatim>\<open>float\<close>, and the conversion to the \<^verbatim>\<open>int\<close> of the
  same value is made by \<^verbatim>\<open>CalculatorApp.calculate\<close>.
\<close>
theorem safe_eval_keeps_float:
  assumes "strip expr \<noteq> []" and "ast_parse (strip expr) = Inr node"
  shows "safe_eval ast_parse expr = visit node
       \<and> visit (Constant (CFloat x)) = Inr (VFloat x)
       \<and> (visit operand = Inr (VFloat x)
            \<longrightarrow> visit (UnaryOp UAdd operand) = Inr (VFloat x)
              \<and> visit (UnaryOp USub operand) = Inr (VFloat (- x)))
       \<and> (visit left = Inr l \<and> visit right = Inr r
            \<and> (is_float l \<or> is_float r \<or> op = Div)
            \<and> visit (BinOp left op right) = Inr v
            \<longrightarrow> is_float v \<or> is_complex v)
       \<and> (visit left = Inr (VFloat a) \<and> visit right = Inr (VFloat b)
            \<and> (op = Add \<or> op = Sub \<or> op = Mult \<or> ((op = Div \<or> op = Mod) \<and> b \<noteq> 0))
            \<longrightarrow> (\<exists>y. visit (BinOp left op right) = Inr (VFloat y)))
       \<and> (visit left = Inr (VInt i) \<and> visit right = Inr (VInt j) \<and> j \<noteq> 0
            \<and> \<bar>real_of_int i / of_int j\<bar> < float_limit
            \<longrightarrow> visit (BinOp left Div right)
                  = Inr (VFloat (underflow (of_int i / of_int j))))
       \<and> (visit node = Inr (VFloat x) \<and> float_is_integer x
            \<longrightarrow> safe_eval ast_parse expr = Inr (VFloat x)
              \<and> calculate ast_parse expr = Display (VInt (int_of_float x))
              \<and> of_int (int_of_float x) = x)"
proof -
  have s: "safe_eval ast_parse expr = visit node"
    using assms by (simp add: safe_eval_def)
  have c: "visit (Constant (CFloat x)) = Inr (VFloat x)"
    by (simp add: visit_Constant_eq)
  have u: "visit (UnaryOp UAdd operand) = Inr (VFloat x)
           \<and> visit (UnaryOp USub operand) = Inr (VFloat (- x))"
    if "visit operand = Inr (VFloat x)"
    using that by (simp add: visit_UnaryOp_eq)
  have n: "safe_eval ast_parse expr = Inr (VFloat x)
           \<and> calculate ast_parse expr = Display (VInt (int_of_float x))
           \<and> of_int (int_of_float x) = x"
    if "visit node = Inr (VFloat x)" "float_is_integer x"
  proof -
    have "of_int (int_of_float x) = x"
      using that(2) by (auto simp: float_is_integer_def int_of_float_def ceiling_altdef)
    then show ?thesis using that by (simp add: calculate_def s)
  qed
  from s c u n binop_float_type [of left l right r op v] binop_floats [of left a right b op]
    int_quotient [of left i right j]
  show ?thesis by blast
qed

theorem safe_eval_keeps_float_witness:
  "safe_eval py_parse ''4/2'' = Inr (VFloat 2)
   \<and> calculate py_parse ''4/2'' = Display (VInt 2)
   \<and> visit (BinOp (Constant (CInt 4)) Div (Constant (CInt 2))) = Inr (VFloat 2)
   \<and> visit (BinOp (Constant (CFloat 2)) Mult (Constant (CFloat 3))) = Inr (VFloat 6)
   \<and> visit (UnaryOp USub (Constant (CFloat 2))) = Inr (VFloat (- 2))"
proof -
  have q: "\<bar>real_of_int 4 / of_int 2\<bar> < float_limit"
    using in_float_range [of 2] by simp
  have w: "underflow 2 = 2"
    using underflow_eq [of 2] by simp
  have k: "visit (Constant (CInt k)) = Inr (VInt k)" for k
    by (simp add: visit_eqs)
  have f: "visit (Constant (CFloat y)) = Inr (VFloat y)" for y
    by (simp add: visit_eqs)
  have d: "visit (BinOp (Constant (CInt 4)) Div (Constant (CInt 2))) = Inr (VFloat 2)"
    using safe_eval_keeps_float [of "''4/2''" py_parse _ 2 "Constant (CFloat 2)"
        "Constant (CInt 4)" "VInt 4" "Constant (CInt 2)" "VInt 2" Div "VFloat 2" 2 3 4 2]
      q w k
    by (simp add: strip_literals py_parse_examples)
  have i: "float_is_integer 2" by (simp add: float_is_integer_def)
  have m: "visit (BinOp (Constant (CFloat 2)) Mult (Constant (CFloat 3))) = Inr (VFloat 6)"
    using underflow_eq [of 6] by (simp add: visit_eqs py_mul_def coerce_def)
  from safe_eval_keeps_float [of "''4/2''" py_parse _ 2 "Constant (CFloat 2)"
        "Constant (CFloat 2)" "VFloat 2" "Constant (CFloat 3)" "VFloat 3" Mult "VFloat 6"
        2 3 4 2] d i f m
  show ?thesis
    by (simp add: strip_literals py_parse_examples int_of_float_def visit_Expression_eq)
qed


text \<open>
  C10, as stated, fails. It says that on every input whose tree has a \<^verbatim>\<open>Call\<close>, \<^verbatim>\<open>Name\<close>
  or \<^verbatim>\<open>Tuple\<close> at the top, \<^verbatim>\<open>safe_eval\<close> returns \<^verbatim>\<open>None\<close> and does not raise the
  disallowed-expression error. \<^verbatim>\<open>generic_visit\<close> visits the children with \<^verbatim>\<open>visit\<close>: on
  \<^verbatim>\<open>f(x.y)\<close> the argument is an \<^verbatim>\<open>Attribute\<close>, and \<^verbatim>\<open>safe_eval\<close> raises
  \<^verbatim>\<open>ValueError("Disallowed expression: Attribute")\<close>.
\<close>
theorem safe_eval_call_disallowed_child:
  "py_parse ''f(x.y)''
     = Inr (Expression (Call (Name ''f'' Load) [Other Attribute [Name ''x'' Load, Load]] []))
   \<and> safe_eval py_parse ''f(x.y)'' = Inl (ValueError ''Disallowed expression: Attribute'')"
  by (simp add: safe_eval_def strip_literals py_parse_examples visit_eqs)


text \<open>
  C10, amended: on an input whose tree has a \<^verbatim>\<open>Call\<close>, \<^verbatim>\<open>Name\<close> or \<^verbatim>\<open>Tuple\<close> at the top,
  the top node passes the allow-list check (\<^verbatim>\<open>safe_eval\<close> never raises the
  disallowed-expression error for the class of the top node) and goes to the generic
  visitor, which visits the child nodes in order. \<^verbatim>\<open>safe_eval\<close> never returns a number: it
  returns \<^verbatim>\<open>None\<close> when the visit of every child succeeds, as for \<^verbatim>\<open>abs(4)\<close>, and otherwise
  raises the error of a child.
\<close>
theorem safe_eval_generic_top:
  assumes "strip expr \<noteq> []"
    and "ast_parse (strip expr) = Inr (Expression tnode)"
    and "isinstance tnode [''Call'', ''Name'', ''Tuple'']"
  shows "safe_eval ast_parse expr = visit_each (child_nodes tnode)
       \<and> (safe_eval ast_parse expr = Inr VNone
            \<longleftrightarrow> (\<forall>n\<in>set (child_nodes tnode). \<exists>v. visit n = Inr v))
       \<and> (\<forall>v. safe_eval ast_parse expr = Inr v \<longrightarrow> v = VNone)
       \<and> (\<forall>e. safe_eval ast_parse expr = Inl e
              \<longrightarrow> (\<exists>n\<in>set (child_nodes tnode). visit n = Inl e))
       \<and> safe_eval ast_parse expr
           \<noteq> Inl (ValueError (''Disallowed expression: '' @ class_name tnode))"
proof -
  have s: "safe_eval ast_parse expr = visit tnode"
    using assms(1,2) by (simp add: safe_eval_def visit_Expression_eq)
  have t: "visit tnode = visit_each (child_nodes tnode)"
    using assms(3) by (rule generic_top)
  have "isinstance tnode ALLOWED_NODES"
    using assms(3) by (auto simp: isinstance_def ALLOWED_NODES_def)
  then have "visit tnode \<noteq> Inl (ValueError (''Disallowed expression: '' @ class_name tnode))"
    by (rule allowed_not_rejected)
  then show ?thesis
    unfolding s using t
    by (auto simp: visit_each_None_iff dest: visit_each_Inr visit_each_Inl)
qed

theorem safe_eval_generic_top_witness:
  "py_parse ''abs(4)'' = Inr (Expression (Call (Name ''abs'' Load) [Constant (CInt 4)] []))
   \<and> isinstance (Call (Name ''abs'' Load) [Constant (CInt 4)] []) [''Call'', ''Name'', ''Tuple'']
   \<and> safe_eval py_parse ''abs(4)'' = Inr VNone"
proof -
  have i: "isinstance (Call (Name ''abs'' Load) [Constant (CInt 4)] [])
             [''Call'', ''Name'', ''Tuple'']"
    by (simp add: isinstance_def)
  from safe_eval_generic_top [of "''abs(4)''" py_parse, OF _ _ i] i show ?thesis
    by (simp add: strip_literals py_parse_examples visit_eqs)
qed


end
